theory Spec2Isabelle
  imports Main "HOL-Library.AList"
begin

section \<open>Parsed YAML values and the Python operations applied to them\<close>

text \<open>
  \<^verbatim>\<open>yaml.safe_load\<close> returns \<^verbatim>\<open>None\<close>, a scalar, a list or a dict. The scalars
  modelled are \<^verbatim>\<open>None\<close>, booleans, integers and strings (floats and dates are left
  out); mapping keys are strings (the code only ever looks up string keys). A mapping is
  an association list read with \<open>map_of\<close>, so a key bound twice reads as its first
  binding.
\<close>

datatype yaml =
    YNull
  | YBool bool
  | YInt int
  | YStr string
  | YList "yaml list"
  | YMap "(string \<times> yaml) list"

datatype pytype = NoneType | TBool | TInt | TStr | TList | TDict

fun py_type :: "yaml \<Rightarrow> pytype" where
  "py_type YNull = NoneType"
| "py_type (YBool b) = TBool"
| "py_type (YInt i) = TInt"
| "py_type (YStr s) = TStr"
| "py_type (YList xs) = TList"
| "py_type (YMap kvs) = TDict"

text \<open>
  The text of an exception: a literal, or the f-string \<^verbatim>\<open>f"prefix{value}"\<close> kept as
  its prefix and the interpolated value.
\<close>

datatype message = Lit string | Fmt string yaml

datatype type_error =
    NotSubscriptable pytype
  | BadIndex pytype
  | NoLen pytype
  | NotIterable pytype
  | Unhashable pytype
  | OpenArgument

datatype pyerr =
    Exception message
  | AttributeError pytype string
  | TypeError type_error
  | KeyError string
  | OSError string
  | YAMLError string

definition bindE :: "'e + 'a \<Rightarrow> ('a \<Rightarrow> 'e + 'b) \<Rightarrow> 'e + 'b" where
  "bindE m f = (case m of Inl e \<Rightarrow> Inl e | Inr v \<Rightarrow> f v)"

text \<open>\<^verbatim>\<open>data.get(key, default)\<close>: only a dict has the method.\<close>

fun py_get_default :: "yaml \<Rightarrow> string \<Rightarrow> yaml \<Rightarrow> pyerr + yaml" where
  "py_get_default (YMap kvs) k d = Inr (case map_of kvs k of None \<Rightarrow> d | Some v \<Rightarrow> v)"
| "py_get_default v k d = Inl (AttributeError (py_type v) ''get'')"

definition py_get :: "yaml \<Rightarrow> string \<Rightarrow> pyerr + yaml" where
  "py_get data k = py_get_default data k YNull"

text \<open>\<^verbatim>\<open>data[key]\<close> with a string key.\<close>

fun py_getitem :: "yaml \<Rightarrow> string \<Rightarrow> pyerr + yaml" where
  "py_getitem (YMap kvs) k = (case map_of kvs k of None \<Rightarrow> Inl (KeyError k) | Some v \<Rightarrow> Inr v)"
| "py_getitem (YList xs) k = Inl (TypeError (BadIndex TList))"
| "py_getitem (YStr s) k = Inl (TypeError (BadIndex TStr))"
| "py_getitem v k = Inl (TypeError (NotSubscriptable (py_type v)))"

text \<open>\<^verbatim>\<open>len(data)\<close>.\<close>

fun py_len :: "yaml \<Rightarrow> pyerr + nat" where
  "py_len (YList xs) = Inr (length xs)"
| "py_len (YMap kvs) = Inr (length (remdups (map fst kvs)))"
| "py_len (YStr s) = Inr (length s)"
| "py_len v = Inl (TypeError (NoLen (py_type v)))"

text \<open>
  \<^verbatim>\<open>for x in data\<close>: the elements of a list, the keys of a dict, the one-character
  strings of a string.
\<close>

fun py_iter :: "yaml \<Rightarrow> pyerr + yaml list" where
  "py_iter (YList xs) = Inr xs"
| "py_iter (YMap kvs) = Inr (map YStr (remdups (map fst kvs)))"
| "py_iter (YStr s) = Inr (map (\<lambda>c. YStr [c]) s)"
| "py_iter v = Inl (TypeError (NotIterable (py_type v)))"

text \<open>
  Dictionary keys up to Python's equality of keys: \<^verbatim>\<open>True\<close> and \<^verbatim>\<open>1\<close> are the same
  key. Lists and dicts are unhashable.
\<close>

datatype pykey = KNone | KInt int | KStr string

fun py_key :: "yaml \<Rightarrow> pyerr + pykey" where
  "py_key YNull = Inr KNone"
| "py_key (YBool b) = Inr (KInt (if b then 1 else 0))"
| "py_key (YInt i) = Inr (KInt i)"
| "py_key (YStr s) = Inr (KStr s)"
| "py_key (YList xs) = Inl (TypeError (Unhashable TList))"
| "py_key (YMap kvs) = Inl (TypeError (Unhashable TDict))"

text \<open>
  A Python dict built by item assignment: an association list with distinct keys in
  insertion order; \<^verbatim>\<open>d[k] = v\<close> is \<open>AList.update k v d\<close>, which replaces the value of
  a key already present and appends a new key at the end.
\<close>

type_synonym 'v dict = "(pykey \<times> 'v) list"

section \<open>The configuration classes\<close>

text \<open>
  The classes derive from pydantic's \<^verbatim>\<open>BaseModel\<close>: \<^verbatim>\<open>super().__init__()\<close> gives the
  instance its own copy of every declared default, and a later assignment to a declared
  field stores the value as it is (assignments are not validated). So every field holds
  a parsed value, \<open>YNull\<close> for \<^verbatim>\<open>None\<close>. Field names carry the class as a prefix.
\<close>

record ModelConfig =
  mc_name :: yaml
  mc_url :: yaml
  mc_credential_path :: yaml

record ProviderConfig =
  pc_name :: yaml
  pc_url :: yaml
  pc_credential_path :: yaml
  pc_models :: "ModelConfig dict"

record LLMConfig =
  providers :: "ProviderConfig dict"

record RedisConfig =
  host :: yaml
  port :: yaml
  max_memory :: yaml
  max_memory_policy :: yaml

record MemoryConfig =
  max_entries :: yaml

record ConversationCacheConfig =
  cc_type :: yaml
  cc_redis :: "RedisConfig option"
  cc_memory :: "MemoryConfig option"

record LoggerConfig =
  level :: yaml
  filename :: yaml

record OLSConfig =
  enable_debug_ui :: yaml
  default_model :: yaml
  classifier_model :: yaml
  conversation_cache :: "ConversationCacheConfig option"
  logger_config :: "LoggerConfig option"

record Config =
  llm_config :: "LLMConfig option"
  ols_config :: "OLSConfig option"

subsection \<open>ModelConfig\<close>

text \<open>
  With \<^verbatim>\<open>data is None\<close> the message of the exception is built first, and
  \<^verbatim>\<open>data['name']\<close> is evaluated on \<^verbatim>\<open>None\<close>.
\<close>

definition ModelConfig_init :: "yaml \<Rightarrow> pyerr + ModelConfig" where
  "ModelConfig_init data =
     (if data = YNull then
        bindE (py_getitem data ''name'') (\<lambda>n.
        Inl (Exception (Fmt ''model config is missing for model '' n)))
      else
        bindE (py_get data ''name'') (\<lambda>n.
        bindE (py_get data ''url'') (\<lambda>u.
        bindE (py_get data ''credential_path'') (\<lambda>c.
        Inr \<lparr>mc_name = n, mc_url = u, mc_credential_path = c\<rparr>))))"

subsection \<open>ProviderConfig\<close>

definition ProviderConfig_default :: ProviderConfig where
  "ProviderConfig_default =
     \<lparr>pc_name = YNull, pc_url = YNull, pc_credential_path = YNull, pc_models = []\<rparr>"

text \<open>The body of \<^verbatim>\<open>for m in data["models"]\<close>.\<close>

definition add_model :: "yaml \<Rightarrow> ModelConfig dict \<Rightarrow> pyerr + ModelConfig dict" where
  "add_model m models =
     bindE (py_get m ''name'') (\<lambda>n.
       if n = YNull then Inl (Exception (Lit ''model name is missing''))
       else
         bindE (ModelConfig_init m) (\<lambda>model.
         bindE (py_getitem m ''name'') (\<lambda>nm.
         bindE (py_key nm) (\<lambda>k.
         Inr (AList.update k model models)))))"

fun add_models :: "yaml list \<Rightarrow> ModelConfig dict \<Rightarrow> pyerr + ModelConfig dict" where
  "add_models [] models = Inr models"
| "add_models (m # rest) models =
     (case add_model m models of Inl e \<Rightarrow> Inl e | Inr models' \<Rightarrow> add_models rest models')"

text \<open>
  \<^verbatim>\<open>data.get("models",None) is None or len(data["models"]) == 0\<close>, evaluated left to
  right.
\<close>

definition no_models :: "yaml \<Rightarrow> pyerr + bool" where
  "no_models data =
     bindE (py_get data ''models'') (\<lambda>ms.
       if ms = YNull then Inr True
       else
         bindE (py_getitem data ''models'') (\<lambda>ms'.
         bindE (py_len ms') (\<lambda>n.
         Inr (n = 0))))"

definition ProviderConfig_init :: "yaml \<Rightarrow> pyerr + ProviderConfig" where
  "ProviderConfig_init data =
     (if data = YNull then Inr ProviderConfig_default
      else
        bindE (py_get data ''name'') (\<lambda>n.
        bindE (py_get data ''url'') (\<lambda>u.
        bindE (py_get data ''credential_path'') (\<lambda>c.
        bindE (no_models data) (\<lambda>none.
          if none then
            bindE (py_getitem data ''name'') (\<lambda>nm.
            Inl (Exception (Fmt ''no models configured for provider '' nm)))
          else
            bindE (py_getitem data ''models'') (\<lambda>ms.
            bindE (py_iter ms) (\<lambda>entries.
            bindE (add_models entries (pc_models ProviderConfig_default)) (\<lambda>models.
            Inr \<lparr>pc_name = n, pc_url = u, pc_credential_path = c,
                 pc_models = models\<rparr>))))))))"

subsection \<open>LLMConfig\<close>

text \<open>The body of \<^verbatim>\<open>for p in data\<close>.\<close>

definition add_provider :: "yaml \<Rightarrow> ProviderConfig dict \<Rightarrow> pyerr + ProviderConfig dict" where
  "add_provider p provs =
     bindE (py_get p ''name'') (\<lambda>n.
       if n = YNull then Inl (Exception (Lit ''provider name is missing''))
       else
         bindE (ProviderConfig_init p) (\<lambda>provider.
         bindE (py_getitem p ''name'') (\<lambda>nm.
         bindE (py_key nm) (\<lambda>k.
         Inr (AList.update k provider provs)))))"

fun add_providers :: "yaml list \<Rightarrow> ProviderConfig dict \<Rightarrow> pyerr + ProviderConfig dict" where
  "add_providers [] provs = Inr provs"
| "add_providers (p # rest) provs =
     (case add_provider p provs of Inl e \<Rightarrow> Inl e | Inr provs' \<Rightarrow> add_providers rest provs')"

definition LLMConfig_init :: "yaml \<Rightarrow> pyerr + LLMConfig" where
  "LLMConfig_init data =
     bindE (if data = YNull then Inr True else bindE (py_len data) (\<lambda>n. Inr (n = 0))) (\<lambda>none.
       if none then Inl (Exception (Lit ''no llm providers configured''))
       else
         bindE (py_iter data) (\<lambda>entries.
         bindE (add_providers entries []) (\<lambda>provs.
         Inr \<lparr>providers = provs\<rparr>)))"

subsection \<open>Cache and logger sections\<close>

definition RedisConfig_init :: "yaml \<Rightarrow> pyerr + RedisConfig" where
  "RedisConfig_init data =
     (if data = YNull then
        Inr \<lparr>host = YNull, port = YNull, max_memory = YNull, max_memory_policy = YNull\<rparr>
      else
        bindE (py_get data ''host'') (\<lambda>h.
        bindE (py_get data ''port'') (\<lambda>p.
        bindE (py_get data ''max_memory'') (\<lambda>m.
        bindE (py_get data ''max_memory_policy'') (\<lambda>mp.
        Inr \<lparr>host = h, port = p, max_memory = m, max_memory_policy = mp\<rparr>)))))"

definition MemoryConfig_init :: "yaml \<Rightarrow> pyerr + MemoryConfig" where
  "MemoryConfig_init data =
     (if data = YNull then Inr \<lparr>max_entries = YNull\<rparr>
      else bindE (py_get data ''max_entries'') (\<lambda>n. Inr \<lparr>max_entries = n\<rparr>))"

definition ConversationCacheConfig_init :: "yaml \<Rightarrow> pyerr + ConversationCacheConfig" where
  "ConversationCacheConfig_init data =
     (if data = YNull then Inr \<lparr>cc_type = YNull, cc_redis = None, cc_memory = None\<rparr>
      else
        bindE (py_get data ''type'') (\<lambda>t.
          if t = YStr ''redis'' then
            bindE (py_get data ''redis'') (\<lambda>r.
              if r = YNull then Inl (Exception (Lit ''redis config is missing''))
              else
                bindE (py_get data ''redis'') (\<lambda>r'.
                bindE (RedisConfig_init r') (\<lambda>rc.
                Inr \<lparr>cc_type = t, cc_redis = Some rc, cc_memory = None\<rparr>)))
          else if t = YStr ''memory'' then
            bindE (py_get data ''memory'') (\<lambda>m.
              if m = YNull then Inl (Exception (Lit ''memory config is missing''))
              else
                bindE (py_get data ''memory'') (\<lambda>m'.
                bindE (MemoryConfig_init m') (\<lambda>mc.
                Inr \<lparr>cc_type = t, cc_redis = None, cc_memory = Some mc\<rparr>)))
          else Inr \<lparr>cc_type = t, cc_redis = None, cc_memory = None\<rparr>))"

definition LoggerConfig_init :: "yaml \<Rightarrow> pyerr + LoggerConfig" where
  "LoggerConfig_init data =
     (if data = YNull then Inr \<lparr>level = YNull, filename = YNull\<rparr>
      else
        bindE (py_get data ''level'') (\<lambda>l.
        bindE (py_get data ''filename'') (\<lambda>f.
        Inr \<lparr>level = l, filename = f\<rparr>)))"

subsection \<open>OLSConfig\<close>

text \<open>
  The declared defaults. \<^verbatim>\<open>__init__\<close> assigns \<^verbatim>\<open>default_model\<close>,
  \<^verbatim>\<open>enable_debug_ui\<close>, \<^verbatim>\<open>conversation_cache\<close> and \<^verbatim>\<open>logger_config\<close>; it has no
  assignment to \<^verbatim>\<open>classifier_model\<close>, which keeps its default.
\<close>

definition OLSConfig_default :: OLSConfig where
  "OLSConfig_default =
     \<lparr>enable_debug_ui = YBool False, default_model = YNull, classifier_model = YNull,
      conversation_cache = None, logger_config = None\<rparr>"

definition OLSConfig_init :: "yaml \<Rightarrow> pyerr + OLSConfig" where
  "OLSConfig_init data =
     (if data = YNull then Inr OLSConfig_default
      else
        bindE (py_get data ''default_model'') (\<lambda>dm.
        bindE (py_get_default data ''enable_debug_ui'' (YBool False)) (\<lambda>ui.
        bindE (py_get data ''conversation_cache'') (\<lambda>cc.
        bindE (ConversationCacheConfig_init cc) (\<lambda>cache.
        bindE (py_get data ''logger_config'') (\<lambda>lc.
        bindE (LoggerConfig_init lc) (\<lambda>logger.
        Inr (OLSConfig_default
              \<lparr>default_model := dm, enable_debug_ui := ui,
               conversation_cache := Some cache, logger_config := Some logger\<rparr>))))))))"

subsection \<open>Config\<close>

definition Config_init :: "yaml \<Rightarrow> pyerr + Config" where
  "Config_init data =
     (if data = YNull then Inr \<lparr>llm_config = None, ols_config = None\<rparr>
      else
        bindE (py_get data ''llm_providers'') (\<lambda>lp.
        bindE (LLMConfig_init lp) (\<lambda>llm.
        bindE (py_get data ''ols_config'') (\<lambda>oc.
        bindE (OLSConfig_init oc) (\<lambda>ols.
        Inr \<lparr>llm_config = Some llm, ols_config = Some ols\<rparr>)))))"

text \<open>
  \<^verbatim>\<open>validate\<close> returns nothing or raises. The \<^verbatim>\<open>providers is None\<close> disjunct of the
  second check has no counterpart: the field always holds a dict.
\<close>

definition validate :: "Config \<Rightarrow> pyerr + unit" where
  "validate self =
     (case llm_config self of
        None \<Rightarrow> Inl (Exception (Lit ''no llm config found''))
      | Some llm \<Rightarrow>
          if length (providers llm) = 0 then Inl (Exception (Lit ''no llm providers found''))
          else
            (case ols_config self of
               None \<Rightarrow> Inl (Exception (Lit ''no ols config found''))
             | Some ols \<Rightarrow>
                 if default_model ols = YNull then
                   Inl (Exception (Lit ''default model is not set''))
                 else if classifier_model ols = YNull then
                   Inl (Exception (Lit ''classifier model is not set''))
                 else if conversation_cache ols = None then
                   Inl (Exception (Lit ''conversation cache is not set''))
                 else if logger_config ols = None then
                   Inl (Exception (Lit ''logger config is not set''))
                 else Inr ()))"

section \<open>load_config\<close>

text \<open>
  The argument \<^verbatim>\<open>config_file\<close> is passed to \<^verbatim>\<open>open\<close> and, in the handler, read for its
  \<^verbatim>\<open>name\<close> attribute. A \<^verbatim>\<open>str\<close> path opens and has no such attribute; a
  \<^verbatim>\<open>pathlib.Path\<close> opens and has one; an open file object has one and is rejected by
  \<^verbatim>\<open>open\<close> with a \<^verbatim>\<open>TypeError\<close>.
\<close>

datatype source =
    StrPath string
  | PathObj string string
  | FileObj string

fun name_attr :: "source \<Rightarrow> string option" where
  "name_attr (StrPath p) = None"
| "name_attr (PathObj p n) = Some n"
| "name_attr (FileObj n) = Some n"

text \<open>
  The file system and the YAML parser are a parameter \<open>fs\<close>: for a path, the parsed
  document, or the \<^verbatim>\<open>OSError\<close> of \<^verbatim>\<open>open\<close> or the \<^verbatim>\<open>YAMLError\<close> of
  \<^verbatim>\<open>yaml.safe_load\<close>.
\<close>

fun open_and_parse :: "(string \<Rightarrow> pyerr + yaml) \<Rightarrow> source \<Rightarrow> pyerr + yaml" where
  "open_and_parse fs (StrPath p) = fs p"
| "open_and_parse fs (PathObj p n) = fs p"
| "open_and_parse fs (FileObj n) = Inl (TypeError OpenArgument)"

text \<open>
  What \<^verbatim>\<open>print\<close> writes to standard output: the line
  \<^verbatim>\<open>Failed to load config file {name}: {str(e)}\<close> and the text of
  \<^verbatim>\<open>traceback.format_exc()\<close>, both kept by the exception they render.
\<close>

datatype printed = FailedToLoad string pyerr | Traceback pyerr

datatype 'a outcome = Returned 'a | Exited int | Raised pyerr

definition load_config :: "(string \<Rightarrow> pyerr + yaml) \<Rightarrow> source \<Rightarrow> printed list \<times> Config outcome" where
  "load_config fs config_file =
     (case bindE (open_and_parse fs config_file) Config_init of
        Inr c \<Rightarrow> ([], Returned c)
      | Inl e \<Rightarrow>
          (case name_attr config_file of
             None \<Rightarrow> ([], Raised (AttributeError TStr ''name''))
           | Some n \<Rightarrow> ([FailedToLoad n e, Traceback e], Exited 1)))"

section \<open>Documents: what a section holds, and which documents are valid\<close>

text \<open>
  \<open>field d k\<close> is what \<^verbatim>\<open>d.get(k)\<close> returns on a mapping \<open>d\<close>: the value of the key, or
  \<^verbatim>\<open>None\<close> when the key is absent; \<open>items\<close> are the elements of a list.
\<close>

fun is_map :: "yaml \<Rightarrow> bool" where
  "is_map (YMap kvs) = True"
| "is_map v = False"

fun is_list :: "yaml \<Rightarrow> bool" where
  "is_list (YList xs) = True"
| "is_list v = False"

fun items :: "yaml \<Rightarrow> yaml list" where
  "items (YList xs) = xs"
| "items v = []"

fun field :: "yaml \<Rightarrow> string \<Rightarrow> yaml" where
  "field (YMap kvs) k = (case map_of kvs k of None \<Rightarrow> YNull | Some v \<Rightarrow> v)"
| "field v k = YNull"

text \<open>The values Python accepts as dict keys, and the key each of them is.\<close>

fun hashable :: "yaml \<Rightarrow> bool" where
  "hashable (YList xs) = False"
| "hashable (YMap kvs) = False"
| "hashable v = True"

fun key_of :: "yaml \<Rightarrow> pykey" where
  "key_of (YBool b) = KInt (if b then 1 else 0)"
| "key_of (YInt i) = KInt i"
| "key_of (YStr s) = KStr s"
| "key_of v = KNone"

text \<open>
  A list entry (provider or model) is named when it is a mapping whose \<^verbatim>\<open>name\<close> is
  neither absent nor \<^verbatim>\<open>None\<close> and can be a dict key; \<open>entry_key\<close> is that key.
\<close>

definition named :: "yaml \<Rightarrow> bool" where
  "named e = (is_map e \<and> field e ''name'' \<noteq> YNull \<and> hashable (field e ''name''))"

definition entry_key :: "yaml \<Rightarrow> pykey" where
  "entry_key e = key_of (field e ''name'')"

text \<open>A valid provider entry: named, with a non-empty list of named models.\<close>

definition valid_provider :: "yaml \<Rightarrow> bool" where
  "valid_provider p =
     (named p \<and> is_list (field p ''models'') \<and> items (field p ''models'') \<noteq> [] \<and>
      list_all named (items (field p ''models'')))"

text \<open>
  The configuration objects a named model entry and a valid provider entry are built
  into (\<open>ModelConfig_init_named\<close> and \<open>ProviderConfig_init_valid\<close> below).
\<close>

definition model_of :: "yaml \<Rightarrow> ModelConfig" where
  "model_of m = \<lparr>mc_name = field m ''name'', mc_url = field m ''url'',
                 mc_credential_path = field m ''credential_path''\<rparr>"

definition provider_of :: "yaml \<Rightarrow> ProviderConfig" where
  "provider_of p =
     \<lparr>pc_name = field p ''name'', pc_url = field p ''url'',
      pc_credential_path = field p ''credential_path'',
      pc_models = fold (\<lambda>m. AList.update (entry_key m) (model_of m)) (items (field p ''models'')) []\<rparr>"

text \<open>
  The optional sections: absent (or \<^verbatim>\<open>None\<close>), or a mapping; a cache section of type
  "redis" or "memory" also holds the mapping of that name.
\<close>

definition optional_map :: "yaml \<Rightarrow> bool" where
  "optional_map v = (v = YNull \<or> is_map v)"

definition valid_cache :: "yaml \<Rightarrow> bool" where
  "valid_cache c =
     (c = YNull \<or>
      (is_map c \<and>
       (if field c ''type'' = YStr ''redis'' then is_map (field c ''redis'')
        else if field c ''type'' = YStr ''memory'' then is_map (field c ''memory'')
        else True)))"

definition valid_ols :: "yaml \<Rightarrow> bool" where
  "valid_ols s =
     (s = YNull \<or>
      (is_map s \<and> valid_cache (field s ''conversation_cache'') \<and>
       optional_map (field s ''logger_config'')))"

text \<open>
  A valid document: a mapping whose \<^verbatim>\<open>llm_providers\<close> is a non-empty list of valid
  provider entries and whose \<^verbatim>\<open>ols_config\<close> is a valid optional section.
\<close>

definition valid_document :: "yaml \<Rightarrow> bool" where
  "valid_document d =
     (is_map d \<and> is_list (field d ''llm_providers'') \<and>
      items (field d ''llm_providers'') \<noteq> [] \<and>
      list_all valid_provider (items (field d ''llm_providers'')) \<and>
      valid_ols (field d ''ols_config''))"

text \<open>
  A fully-populated document: valid, with an \<^verbatim>\<open>ols_config\<close> mapping that sets
  \<^verbatim>\<open>default_model\<close> and \<^verbatim>\<open>classifier_model\<close> and holds \<^verbatim>\<open>conversation_cache\<close> and
  \<^verbatim>\<open>logger_config\<close> mappings.
\<close>

definition fully_populated :: "yaml \<Rightarrow> bool" where
  "fully_populated d =
     (valid_document d \<and> is_map (field d ''ols_config'') \<and>
      field (field d ''ols_config'') ''default_model'' \<noteq> YNull \<and>
      field (field d ''ols_config'') ''classifier_model'' \<noteq> YNull \<and>
      is_map (field (field d ''ols_config'') ''conversation_cache'') \<and>
      is_map (field (field d ''ols_config'') ''logger_config''))"

text \<open>
  A list entry without a non-null \<^verbatim>\<open>name\<close>: \<open>nameless\<close> is any such entry (on an
  entry that is not a mapping \<^verbatim>\<open>.get\<close> finds nothing), \<open>lacks_name\<close> one that is a
  mapping.
\<close>

definition nameless :: "yaml \<Rightarrow> bool" where
  "nameless e = (field e ''name'' = YNull)"

definition lacks_name :: "yaml \<Rightarrow> bool" where
  "lacks_name e = (is_map e \<and> field e ''name'' = YNull)"

section \<open>The dictionaries as objects of a store\<close>

text \<open>
  \<^verbatim>\<open>ProviderConfig.models\<close> and \<^verbatim>\<open>LLMConfig.providers\<close> are declared with the
  class-level default \<^verbatim>\<open>{}\<close>, and the constructors fill \<^verbatim>\<open>self.models\<close> and
  \<^verbatim>\<open>self.providers\<close> by item assignment. To follow which dict object an assignment
  writes, dicts live in a store, at references. Each class-level default is one dict
  object, at a fixed reference. \<^verbatim>\<open>super().__init__()\<close> (pydantic's
  \<^verbatim>\<open>BaseModel.__init__\<close>) stores in the new instance a copy of the default, a new dict
  object; the item assignments of the constructor write to that copy.
\<close>

type_synonym ref = nat

record ProviderObj =
  po_name :: yaml
  po_url :: yaml
  po_credential_path :: yaml
  po_models :: ref

record LLMObj =
  lo_providers :: ref

record ConfigObj =
  co_llm_config :: "LLMObj option"
  co_ols_config :: "OLSConfig option"

record store =
  model_dicts :: "ref \<Rightarrow> ModelConfig dict"
  provider_dicts :: "ref \<Rightarrow> ProviderObj dict"
  next_ref :: ref

definition ProviderConfig_models_default :: ref where
  "ProviderConfig_models_default = 0"

definition LLMConfig_providers_default :: ref where
  "LLMConfig_providers_default = 1"

text \<open>The store once the module is imported: both class-level defaults are empty.\<close>

definition initial_store :: store where
  "initial_store = \<lparr>model_dicts = (\<lambda>r. []), provider_dicts = (\<lambda>r. []), next_ref = 2\<rparr>"

definition copy_model_dict :: "ref \<Rightarrow> store \<Rightarrow> ref \<times> store" where
  "copy_model_dict src h =
     (next_ref h,
      h\<lparr>model_dicts := (model_dicts h)(next_ref h := model_dicts h src),
        next_ref := Suc (next_ref h)\<rparr>)"

definition copy_provider_dict :: "ref \<Rightarrow> store \<Rightarrow> ref \<times> store" where
  "copy_provider_dict src h =
     (next_ref h,
      h\<lparr>provider_dicts := (provider_dicts h)(next_ref h := provider_dicts h src),
        next_ref := Suc (next_ref h)\<rparr>)"

text \<open>
  The body of \<^verbatim>\<open>for m in data["models"]\<close>, writing to the dict object of
  \<^verbatim>\<open>self.models\<close>.
\<close>

definition add_model_h :: "yaml \<Rightarrow> ref \<Rightarrow> store \<Rightarrow> (pyerr + unit) \<times> store" where
  "add_model_h m self_models h =
     (case add_model m (model_dicts h self_models) of
        Inl e \<Rightarrow> (Inl e, h)
      | Inr d \<Rightarrow> (Inr (), h\<lparr>model_dicts := (model_dicts h)(self_models := d)\<rparr>))"

fun add_models_h :: "yaml list \<Rightarrow> ref \<Rightarrow> store \<Rightarrow> (pyerr + unit) \<times> store" where
  "add_models_h [] self_models h = (Inr (), h)"
| "add_models_h (m # rest) self_models h =
     (case add_model_h m self_models h of
        (Inl e, h') \<Rightarrow> (Inl e, h')
      | (Inr u, h') \<Rightarrow> add_models_h rest self_models h')"

text \<open>What \<^verbatim>\<open>ProviderConfig.__init__\<close> reads from \<^verbatim>\<open>data\<close> before its loop.\<close>

definition provider_fields :: "yaml \<Rightarrow> pyerr + yaml \<times> yaml \<times> yaml \<times> yaml list" where
  "provider_fields data =
     bindE (py_get data ''name'') (\<lambda>n.
     bindE (py_get data ''url'') (\<lambda>u.
     bindE (py_get data ''credential_path'') (\<lambda>c.
     bindE (no_models data) (\<lambda>none.
       if none then
         bindE (py_getitem data ''name'') (\<lambda>nm.
         Inl (Exception (Fmt ''no models configured for provider '' nm)))
       else
         bindE (py_getitem data ''models'') (\<lambda>ms.
         bindE (py_iter ms) (\<lambda>entries.
         Inr (n, u, c, entries)))))))"

definition ProviderConfig_init_h :: "yaml \<Rightarrow> store \<Rightarrow> (pyerr + ProviderObj) \<times> store" where
  "ProviderConfig_init_h data h0 =
     (case copy_model_dict ProviderConfig_models_default h0 of (self_models, h) \<Rightarrow>
        if data = YNull then
          (Inr \<lparr>po_name = YNull, po_url = YNull, po_credential_path = YNull,
                po_models = self_models\<rparr>, h)
        else
          (case provider_fields data of
             Inl e \<Rightarrow> (Inl e, h)
           | Inr (n, u, c, entries) \<Rightarrow>
               (case add_models_h entries self_models h of
                  (Inl e, h') \<Rightarrow> (Inl e, h')
                | (Inr x, h') \<Rightarrow>
                    (Inr \<lparr>po_name = n, po_url = u, po_credential_path = c,
                          po_models = self_models\<rparr>, h'))))"

text \<open>
  The body of \<^verbatim>\<open>for p in data\<close>, writing to the dict object of \<^verbatim>\<open>self.providers\<close>.
\<close>

definition add_provider_h :: "yaml \<Rightarrow> ref \<Rightarrow> store \<Rightarrow> (pyerr + unit) \<times> store" where
  "add_provider_h p self_providers h =
     (case bindE (py_get p ''name'') (\<lambda>n.
             if n = YNull then Inl (Exception (Lit ''provider name is missing''))
             else Inr n) of
        Inl e \<Rightarrow> (Inl e, h)
      | Inr n \<Rightarrow>
          (case ProviderConfig_init_h p h of
             (Inl e, h') \<Rightarrow> (Inl e, h')
           | (Inr provider, h') \<Rightarrow>
               (case bindE (py_getitem p ''name'') py_key of
                  Inl e \<Rightarrow> (Inl e, h')
                | Inr k \<Rightarrow>
                    (Inr (),
                     h'\<lparr>provider_dicts := (provider_dicts h')
                          (self_providers :=
                             AList.update k provider (provider_dicts h' self_providers))\<rparr>))))"

fun add_providers_h :: "yaml list \<Rightarrow> ref \<Rightarrow> store \<Rightarrow> (pyerr + unit) \<times> store" where
  "add_providers_h [] self_providers h = (Inr (), h)"
| "add_providers_h (p # rest) self_providers h =
     (case add_provider_h p self_providers h of
        (Inl e, h') \<Rightarrow> (Inl e, h')
      | (Inr u, h') \<Rightarrow> add_providers_h rest self_providers h')"

definition LLMConfig_init_h :: "yaml \<Rightarrow> store \<Rightarrow> (pyerr + LLMObj) \<times> store" where
  "LLMConfig_init_h data h0 =
     (case copy_provider_dict LLMConfig_providers_default h0 of (self_providers, h) \<Rightarrow>
        (case bindE (if data = YNull then Inr True else bindE (py_len data) (\<lambda>n. Inr (n = 0)))
                (\<lambda>none. if none then Inl (Exception (Lit ''no llm providers configured''))
                        else py_iter data) of
           Inl e \<Rightarrow> (Inl e, h)
         | Inr entries \<Rightarrow>
             (case add_providers_h entries self_providers h of
                (Inl e, h') \<Rightarrow> (Inl e, h')
              | (Inr x, h') \<Rightarrow> (Inr \<lparr>lo_providers = self_providers\<rparr>, h'))))"

definition Config_init_h :: "yaml \<Rightarrow> store \<Rightarrow> (pyerr + ConfigObj) \<times> store" where
  "Config_init_h data h =
     (if data = YNull then (Inr \<lparr>co_llm_config = None, co_ols_config = None\<rparr>, h)
      else
        (case py_get data ''llm_providers'' of
           Inl e \<Rightarrow> (Inl e, h)
         | Inr lp \<Rightarrow>
             (case LLMConfig_init_h lp h of
                (Inl e, h') \<Rightarrow> (Inl e, h')
              | (Inr llm, h') \<Rightarrow>
                  (case bindE (py_get data ''ols_config'') OLSConfig_init of
                     Inl e \<Rightarrow> (Inl e, h')
                   | Inr ols \<Rightarrow>
                       (Inr \<lparr>co_llm_config = Some llm, co_ols_config = Some ols\<rparr>, h')))))"

definition load_config_h ::
  "(string \<Rightarrow> pyerr + yaml) \<Rightarrow> source \<Rightarrow> store \<Rightarrow> (printed list \<times> ConfigObj outcome) \<times> store" where
  "load_config_h fs config_file h =
     (case (case open_and_parse fs config_file of
              Inl e \<Rightarrow> (Inl e, h)
            | Inr data \<Rightarrow> Config_init_h data h) of
        (Inr c, h') \<Rightarrow> (([], Returned c), h')
      | (Inl e, h') \<Rightarrow>
          (case name_attr config_file of
             None \<Rightarrow> (([], Raised (AttributeError TStr ''name'')), h')
           | Some n \<Rightarrow> (([FailedToLoad n e, Traceback e], Exited 1), h')))"

text \<open>The field values of an object, read out of the store.\<close>

definition read_provider :: "store \<Rightarrow> ProviderObj \<Rightarrow> ProviderConfig" where
  "read_provider h po =
     \<lparr>pc_name = po_name po, pc_url = po_url po, pc_credential_path = po_credential_path po,
      pc_models = model_dicts h (po_models po)\<rparr>"

definition read_providers :: "store \<Rightarrow> ref \<Rightarrow> ProviderConfig dict" where
  "read_providers h r = map (\<lambda>kv. (fst kv, read_provider h (snd kv))) (provider_dicts h r)"

definition read_config :: "store \<Rightarrow> ConfigObj \<Rightarrow> Config" where
  "read_config h c =
     \<lparr>llm_config =
        map_option (\<lambda>llm. \<lparr>providers = read_providers h (lo_providers llm)\<rparr>) (co_llm_config c),
      ols_config = co_ols_config c\<rparr>"

text \<open>The class-level defaults are empty, and distinct from every reference yet to be given out.\<close>

definition class_defaults_empty :: "store \<Rightarrow> bool" where
  "class_defaults_empty h =
     (model_dicts h ProviderConfig_models_default = [] \<and>
      provider_dicts h LLMConfig_providers_default = [] \<and>
      2 \<le> next_ref h)"

text \<open>
  Every provider object in the dict at \<open>r\<close> holds a models reference already given out;
  likewise for the provider dict of a configuration object.
\<close>

definition refs_below :: "store \<Rightarrow> ref \<Rightarrow> bool" where
  "refs_below h r = list_all (\<lambda>kv. po_models (snd kv) < next_ref h) (provider_dicts h r)"

definition config_below :: "store \<Rightarrow> ConfigObj \<Rightarrow> bool" where
  "config_below h c =
     (case co_llm_config c of
        None \<Rightarrow> True
      | Some llm \<Rightarrow> lo_providers llm < next_ref h \<and> refs_below h (lo_providers llm))"

section \<open>Example documents\<close>

text \<open>The document of the end-to-end scenario.\<close>

definition example_document :: yaml where
  "example_document =
     YMap [(''llm_providers'',
              YList [YMap [(''name'', YStr ''openai''),
                           (''models'', YList [YMap [(''name'', YStr ''gpt-4'')]])]]),
           (''ols_config'',
              YMap [(''default_model'', YStr ''gpt-4''),
                    (''classifier_model'', YStr ''gpt-4''),
                    (''conversation_cache'',
                       YMap [(''type'', YStr ''memory''),
                             (''memory'', YMap [(''max_entries'', YInt 100)])]),
                    (''logger_config'', YMap [(''level'', YStr ''INFO'')])])]"

definition document_without_default_model :: yaml where
  "document_without_default_model =
     YMap [(''llm_providers'',
              YList [YMap [(''name'', YStr ''openai''),
                           (''models'', YList [YMap [(''name'', YStr ''gpt-4'')]])]]),
           (''ols_config'',
              YMap [(''classifier_model'', YStr ''gpt-4''),
                    (''conversation_cache'',
                       YMap [(''type'', YStr ''memory''),
                             (''memory'', YMap [(''max_entries'', YInt 100)])]),
                    (''logger_config'', YMap [(''level'', YStr ''INFO'')])])]"

definition document_missing_provider_name :: yaml where
  "document_missing_provider_name =
     YMap [(''llm_providers'',
              YList [YMap [(''url'', YStr ''https://api.openai.com''),
                           (''models'', YList [YMap [(''name'', YStr ''gpt-4'')]])]])]"

definition document_without_ols_config :: yaml where
  "document_without_ols_config =
     YMap [(''llm_providers'',
              YList [YMap [(''name'', YStr ''openai''),
                           (''models'', YList [YMap [(''name'', YStr ''gpt-4'')]])]])]"

definition provider_with_duplicate_models :: yaml where
  "provider_with_duplicate_models =
     YMap [(''name'', YStr ''openai''),
           (''models'',
              YList [YMap [(''name'', YStr ''gpt-4''), (''url'', YStr ''https://first'')],
                     YMap [(''name'', YStr ''gpt-3.5'')],
                     YMap [(''name'', YStr ''gpt-4''), (''url'', YStr ''https://last'')]])]"

definition duplicate_providers :: "yaml list" where
  "duplicate_providers =
     [YMap [(''name'', YStr ''openai''), (''url'', YStr ''https://first''),
            (''models'', YList [YMap [(''name'', YStr ''gpt-4'')]])],
      YMap [(''name'', YStr ''openai''), (''url'', YStr ''https://last''),
            (''models'', YList [YMap [(''name'', YStr ''gpt-3.5'')]])]]"

definition document_nameless_after_empty_provider :: yaml where
  "document_nameless_after_empty_provider =
     YMap [(''llm_providers'',
              YList [YMap [(''name'', YStr ''openai''), (''models'', YList [])],
                     YMap [(''url'', YStr ''https://api.example.com''),
                           (''models'', YList [YMap [(''name'', YStr ''gpt-4'')]])]])]"

definition document_string_provider :: yaml where
  "document_string_provider = YMap [(''llm_providers'', YList [YStr ''openai''])]"

definition document_nameless_second_provider :: yaml where
  "document_nameless_second_provider =
     YMap [(''llm_providers'',
              YList [YMap [(''name'', YStr ''openai''),
                           (''models'', YList [YMap [(''name'', YStr ''gpt-4'')]])],
                     YMap [(''url'', YStr ''https://api.example.com'')],
                     YStr ''not a mapping''])]"

definition document_nameless_second_model :: yaml where
  "document_nameless_second_model =
     YMap [(''llm_providers'',
              YList [YMap [(''name'', YStr ''openai''),
                           (''models'', YList [YMap [(''name'', YStr ''gpt-4'')],
                                               YMap [(''url'', YStr ''https://api.example.com'')],
                                               YInt 7])]])]"

section \<open>Construction on valid input\<close>

lemma bindE_Inr [simp]: "bindE (Inr v) f = f v"
  by (simp add: bindE_def)

lemma bindE_Inl [simp]: "bindE (Inl e) f = Inl e"
  by (simp add: bindE_def)

lemma py_get_map [simp]: "py_get (YMap kvs) k = Inr (field (YMap kvs) k)"
  by (simp add: py_get_def)

lemma py_get_field: "is_map d \<Longrightarrow> py_get d k = Inr (field d k)"
  by (cases d) simp_all

lemma py_getitem_field:
  "is_map d \<Longrightarrow> field d k \<noteq> YNull \<Longrightarrow> py_getitem d k = Inr (field d k)"
  by (cases d) (auto split: option.splits)

lemma py_key_hashable: "hashable v \<Longrightarrow> py_key v = Inr (key_of v)"
  by (cases v) simp_all

lemma ModelConfig_init_map:
  "is_map m \<Longrightarrow> ModelConfig_init m =
     Inr \<lparr>mc_name = field m ''name'', mc_url = field m ''url'',
          mc_credential_path = field m ''credential_path''\<rparr>"
  by (cases m) (simp_all add: ModelConfig_init_def)

lemma add_model_named:
  assumes "named m" "ModelConfig_init m = Inr mc"
  shows "add_model m acc = Inr (AList.update (entry_key m) mc acc)"
  using assms
  by (simp add: add_model_def named_def entry_key_def py_get_field py_getitem_field
      py_key_hashable)

lemma named_ModelConfig: "named m \<Longrightarrow> \<exists>mc. ModelConfig_init m = Inr mc"
  by (simp add: named_def ModelConfig_init_map)

lemma ModelConfig_init_named: "named m \<Longrightarrow> ModelConfig_init m = Inr (model_of m)"
  by (simp add: named_def ModelConfig_init_map model_of_def)

lemma add_models_named:
  "list_all named ms \<Longrightarrow>
   add_models ms acc = Inr (fold (\<lambda>m. AList.update (entry_key m) (model_of m)) ms acc)"
  by (induction ms arbitrary: acc) (simp_all add: add_model_named ModelConfig_init_named)

lemma no_models_valid: "valid_provider p \<Longrightarrow> no_models p = Inr False"
  by (cases "field p ''models''")
     (auto simp: valid_provider_def named_def no_models_def py_get_field py_getitem_field)

lemma ProviderConfig_init_valid:
  "valid_provider p \<Longrightarrow> ProviderConfig_init p = Inr (provider_of p)"
proof -
  assume v: "valid_provider p"
  then obtain ms where ms: "field p ''models'' = YList ms" "list_all named ms"
    by (cases "field p ''models''") (auto simp: valid_provider_def)
  from v have m: "is_map p" "p \<noteq> YNull"
    by (auto simp: valid_provider_def named_def)
  show ?thesis
    using m ms no_models_valid [OF v]
    by (simp add: ProviderConfig_init_def ProviderConfig_default_def py_get_field
        py_getitem_field add_models_named provider_of_def)
qed

lemma add_provider_valid:
  "valid_provider p \<Longrightarrow>
   add_provider p acc = Inr (AList.update (entry_key p) (provider_of p) acc)"
  by (simp add: add_provider_def valid_provider_def named_def entry_key_def py_get_field
      py_getitem_field py_key_hashable ProviderConfig_init_valid)

lemma add_providers_valid:
  "list_all valid_provider ps \<Longrightarrow>
   add_providers ps acc = Inr (fold (\<lambda>p. AList.update (entry_key p) (provider_of p)) ps acc)"
  by (induction ps arbitrary: acc) (simp_all add: add_provider_valid)

lemma LLMConfig_init_valid:
  "ps \<noteq> [] \<Longrightarrow> list_all valid_provider ps \<Longrightarrow>
   LLMConfig_init (YList ps) =
     Inr \<lparr>providers = fold (\<lambda>p. AList.update (entry_key p) (provider_of p)) ps []\<rparr>"
  by (simp add: LLMConfig_init_def add_providers_valid)

text \<open>Dictionaries filled by a loop of item assignments.\<close>

lemma fold_update_keys:
  "fst ` set (fold (\<lambda>e. AList.update (k e) (v e)) es acc) = fst ` set acc \<union> k ` set es"
  by (induction es arbitrary: acc) (auto simp: dom_update)

lemma fold_update_distinct:
  "distinct (map fst acc) \<Longrightarrow>
   distinct (map fst (fold (\<lambda>e. AList.update (k e) (v e)) es acc))"
  by (induction es arbitrary: acc) (simp_all add: distinct_update)

lemma fold_update_map_of:
  "map_of (fold (\<lambda>e. AList.update (k e) (v e)) es acc) x =
     (if x \<in> k ` set es then Some (v (last (filter (\<lambda>e. k e = x) es))) else map_of acc x)"
proof (induction es arbitrary: acc)
  case Nil
  then show ?case by simp
next
  case (Cons e es)
  show ?case
    by (auto simp: Cons update_conv' filter_empty_conv)
qed

lemma distinct_one_entry:
  "distinct (map fst d) \<Longrightarrow> x \<in> fst ` set d \<Longrightarrow>
   length (filter (\<lambda>kv. fst kv = x) d) = 1"
proof (induction d)
  case Nil
  then show ?case by simp
next
  case (Cons a d)
  show ?case
  proof (cases "fst a = x")
    case True
    with Cons.prems have "x \<notin> fst ` set d"
      by simp
    then have "\<forall>kv\<in>set d. fst kv \<noteq> x"
      by (metis imageI)
    then have "filter (\<lambda>kv. fst kv = x) d = []"
      by (simp add: filter_empty_conv)
    with True show ?thesis by simp
  next
    case False
    with Cons show ?thesis by auto
  qed
qed

lemma is_map_not_null: "is_map v \<Longrightarrow> v \<noteq> YNull"
  by (cases v) simp_all

lemma RedisConfig_init_ok: "optional_map r \<Longrightarrow> \<exists>rc. RedisConfig_init r = Inr rc"
  by (auto simp: optional_map_def RedisConfig_init_def py_get_field)

lemma MemoryConfig_init_ok: "optional_map r \<Longrightarrow> \<exists>mc. MemoryConfig_init r = Inr mc"
  by (auto simp: optional_map_def MemoryConfig_init_def py_get_field)

lemma LoggerConfig_init_ok: "optional_map r \<Longrightarrow> \<exists>lc. LoggerConfig_init r = Inr lc"
  by (auto simp: optional_map_def LoggerConfig_init_def py_get_field)

lemma ConversationCacheConfig_init_ok:
  assumes "valid_cache c"
  shows "\<exists>cc. ConversationCacheConfig_init c = Inr cc"
proof (cases "c = YNull")
  case True
  then show ?thesis by (simp add: ConversationCacheConfig_init_def)
next
  case False
  with assms have m: "is_map c" by (simp add: valid_cache_def)
  show ?thesis
  proof (cases "field c ''type'' = YStr ''redis''")
    case True
    with assms False have r: "is_map (field c ''redis'')"
      by (simp add: valid_cache_def)
    then obtain rc where "RedisConfig_init (field c ''redis'') = Inr rc"
      using RedisConfig_init_ok [of "field c ''redis''"] by (auto simp: optional_map_def)
    with m r True False show ?thesis
      by (simp add: ConversationCacheConfig_init_def py_get_field is_map_not_null)
  next
    case nr: False
    show ?thesis
    proof (cases "field c ''type'' = YStr ''memory''")
      case True
      with assms False nr have r: "is_map (field c ''memory'')"
        by (simp add: valid_cache_def)
      then obtain mc where "MemoryConfig_init (field c ''memory'') = Inr mc"
        using MemoryConfig_init_ok [of "field c ''memory''"] by (auto simp: optional_map_def)
      with m r True False show ?thesis
        by (simp add: ConversationCacheConfig_init_def py_get_field is_map_not_null)
    next
      case False
      with m nr \<open>c \<noteq> YNull\<close> show ?thesis
        by (simp add: ConversationCacheConfig_init_def py_get_field)
    qed
  qed
qed

lemma py_get_default_map:
  "is_map d \<Longrightarrow> \<exists>v. py_get_default d k x = Inr v"
  by (cases d) simp_all

lemma OLSConfig_init_ok:
  assumes "valid_ols s"
  shows "\<exists>ols. OLSConfig_init s = Inr ols"
proof (cases "s = YNull")
  case True
  then show ?thesis by (simp add: OLSConfig_init_def)
next
  case False
  with assms have m: "is_map s" and c: "valid_cache (field s ''conversation_cache'')"
    and l: "optional_map (field s ''logger_config'')"
    by (simp_all add: valid_ols_def)
  obtain cc where cc: "ConversationCacheConfig_init (field s ''conversation_cache'') = Inr cc"
    using ConversationCacheConfig_init_ok [OF c] by blast
  obtain lc where lc: "LoggerConfig_init (field s ''logger_config'') = Inr lc"
    using LoggerConfig_init_ok [OF l] by blast
  obtain ui where ui: "py_get_default s ''enable_debug_ui'' (YBool False) = Inr ui"
    using py_get_default_map [OF m] by blast
  show ?thesis
    using False m cc lc ui by (simp add: OLSConfig_init_def py_get_field)
qed

lemma Config_init_valid:
  assumes "valid_document d"
  shows "\<exists>ols. Config_init d =
     Inr \<lparr>llm_config = Some \<lparr>providers =
              fold (\<lambda>p. AList.update (entry_key p) (provider_of p))
                (items (field d ''llm_providers'')) []\<rparr>,
          ols_config = Some ols\<rparr>"
proof -
  from assms have m: "is_map d" and nn: "d \<noteq> YNull"
    by (auto simp: valid_document_def is_map_not_null)
  from assms obtain ps where ps: "field d ''llm_providers'' = YList ps" "ps \<noteq> []"
      "list_all valid_provider ps"
    by (cases "field d ''llm_providers''") (auto simp: valid_document_def)
  from assms obtain ols where ols: "OLSConfig_init (field d ''ols_config'') = Inr ols"
    using OLSConfig_init_ok [of "field d ''ols_config''"] by (auto simp: valid_document_def)
  show ?thesis
    using m nn ps ols by (simp add: Config_init_def py_get_field LLMConfig_init_valid)
qed

text \<open>
  Claim C4. For every valid document (at least one provider, each a named mapping with a
  non-empty list of named models), \<^verbatim>\<open>load_config\<close> returns a configuration, printing
  nothing, and the keys of \<^verbatim>\<open>llm_config.providers\<close> are exactly the names of the
  provider entries of the document.
\<close>

theorem providers_keys_are_names:
  assumes "open_and_parse fs config_file = Inr d" and "valid_document d"
  shows "\<exists>c llm. load_config fs config_file = ([], Returned c) \<and>
           llm_config c = Some llm \<and>
           fst ` set (providers llm) = entry_key ` set (items (field d ''llm_providers''))"
proof -
  obtain ols where "Config_init d =
     Inr \<lparr>llm_config = Some \<lparr>providers =
              fold (\<lambda>p. AList.update (entry_key p) (provider_of p))
                (items (field d ''llm_providers'')) []\<rparr>,
          ols_config = Some ols\<rparr>"
    using Config_init_valid [OF assms(2)] by blast
  with assms(1) show ?thesis
    by (simp add: load_config_def fold_update_keys)
qed

theorem providers_keys_are_names_witness:
  "open_and_parse (\<lambda>p. Inr example_document) (StrPath ''olsconfig.yaml'') =
     Inr example_document \<and>
   valid_document example_document \<and>
   (\<exists>c llm. load_config (\<lambda>p. Inr example_document) (StrPath ''olsconfig.yaml'') =
        ([], Returned c) \<and>
      llm_config c = Some llm \<and> fst ` set (providers llm) = {KStr ''openai''})"
proof -
  have p: "open_and_parse (\<lambda>p. Inr example_document) (StrPath ''olsconfig.yaml'') =
     Inr example_document"
    by simp
  have v: "valid_document example_document"
    by code_simp
  have k: "entry_key ` set (items (field example_document ''llm_providers'')) = {KStr ''openai''}"
    by (simp add: example_document_def entry_key_def)
  show ?thesis
    using providers_keys_are_names [OF p v] p v k by simp
qed

section \<open>validate and load_config\<close>

lemma bindE_InrE:
  assumes "bindE m f = Inr w"
  obtains v where "m = Inr v" and "f v = Inr w"
  using assms by (cases m) simp_all

lemma OLSConfig_init_classifier:
  "OLSConfig_init s = Inr ols \<Longrightarrow> classifier_model ols = YNull"
  by (auto simp: OLSConfig_init_def OLSConfig_default_def bindE_def
      split: if_splits sum.splits)

lemma validate_never_passes:
  "Config_init d = Inr c \<Longrightarrow> validate c \<noteq> Inr ()"
  by (auto simp: Config_init_def validate_def bindE_def
      dest: OLSConfig_init_classifier split: if_splits sum.splits option.splits)

text \<open>
  Claim C1. On the fully-populated document of the end-to-end scenario, construction
  succeeds and \<^verbatim>\<open>validate\<close> raises "classifier model is not set", although the
  document sets \<^verbatim>\<open>classifier_model\<close>; without \<^verbatim>\<open>default_model\<close> it raises
  "default model is not set".
\<close>

theorem validate_full_document:
  "fully_populated example_document \<and>
   bindE (Config_init example_document) validate =
     Inl (Exception (Lit ''classifier model is not set'')) \<and>
   bindE (Config_init document_without_default_model) validate =
     Inl (Exception (Lit ''default model is not set''))"
  by code_simp

lemma add_provider_nonempty: "add_provider p acc = Inr acc' \<Longrightarrow> acc' \<noteq> []"
  by (auto simp: add_provider_def bindE_def split: if_splits sum.splits)

lemma add_providers_nonempty:
  "add_providers ps acc = Inr provs \<Longrightarrow> ps \<noteq> [] \<or> acc \<noteq> [] \<Longrightarrow> provs \<noteq> []"
proof (induction ps arbitrary: acc)
  case Nil
  then show ?case by simp
next
  case (Cons p ps)
  then show ?case
    by (auto split: sum.splits dest: add_provider_nonempty)
qed

lemma py_iter_nonempty:
  "py_len v = Inr n \<Longrightarrow> n \<noteq> 0 \<Longrightarrow> py_iter v = Inr es \<Longrightarrow> es \<noteq> []"
  by (cases v) auto

lemma LLMConfig_init_nonempty:
  assumes "LLMConfig_init lp = Inr llm"
  shows "providers llm \<noteq> []"
proof -
  from assms obtain n es provs where
    "py_len lp = Inr n" "n \<noteq> 0" "py_iter lp = Inr es" "add_providers es [] = Inr provs"
    "llm = \<lparr>providers = provs\<rparr>"
    by (auto simp: LLMConfig_init_def bindE_def split: if_splits sum.splits)
  then show ?thesis
    using py_iter_nonempty add_providers_nonempty by fastforce
qed

lemma Config_init_not_null:
  assumes "Config_init d = Inr c" "d \<noteq> YNull"
  shows "\<exists>llm ols. llm_config c = Some llm \<and> providers llm \<noteq> [] \<and> ols_config c = Some ols"
  using assms
  by (auto simp: Config_init_def bindE_def split: sum.splits dest: LLMConfig_init_nonempty)

lemma OLSConfig_init_default_model:
  "is_map s \<Longrightarrow> OLSConfig_init s = Inr ols \<Longrightarrow> default_model ols = field s ''default_model''"
  by (cases s) (auto simp: OLSConfig_init_def bindE_def split: sum.splits)

lemma Config_init_ols:
  assumes "Config_init d = Inr c" and "d \<noteq> YNull"
  shows "\<exists>ols. ols_config c = Some ols \<and> OLSConfig_init (field d ''ols_config'') = Inr ols"
proof -
  from assms have "is_map d"
    by (cases d) (simp_all add: Config_init_def py_get_def)
  with assms show ?thesis
    by (auto simp: Config_init_def py_get_field elim!: bindE_InrE)
qed

text \<open>
  On every fully-populated document construction succeeds and \<^verbatim>\<open>validate\<close> raises on
  the classifier-model check.
\<close>

lemma validate_fully_populated:
  assumes "fully_populated d"
  shows "\<exists>c. Config_init d = Inr c \<and>
           validate c = Inl (Exception (Lit ''classifier model is not set''))"
proof -
  from assms have v: "valid_document d" and m: "is_map (field d ''ols_config'')"
    and dm: "field (field d ''ols_config'') ''default_model'' \<noteq> YNull"
    by (simp_all add: fully_populated_def)
  from v have nn: "d \<noteq> YNull"
    by (auto simp: valid_document_def)
  obtain c where c: "Config_init d = Inr c"
    using Config_init_valid [OF v] by blast
  obtain llm ols' where l: "llm_config c = Some llm" "providers llm \<noteq> []"
      "ols_config c = Some ols'"
    using Config_init_not_null [OF c nn] by blast
  obtain ols where o: "ols_config c = Some ols"
      "OLSConfig_init (field d ''ols_config'') = Inr ols"
    using Config_init_ols [OF c nn] by blast
  have "default_model ols \<noteq> YNull" "classifier_model ols = YNull"
    using OLSConfig_init_default_model [OF m o(2)] dm OLSConfig_init_classifier [OF o(2)]
    by simp_all
  with l o c show ?thesis
    by (simp add: validate_def)
qed

text \<open>
  When the \<^verbatim>\<open>ols_config\<close> section sets no \<^verbatim>\<open>default_model\<close>, \<^verbatim>\<open>validate\<close> raises on
  the default-model check, whatever the other fields are.
\<close>

lemma validate_without_default_model:
  assumes "Config_init d = Inr c" and "d \<noteq> YNull"
    and "field (field d ''ols_config'') ''default_model'' = YNull"
  shows "validate c = Inl (Exception (Lit ''default model is not set''))"
proof -
  obtain llm ols' where l: "llm_config c = Some llm" "providers llm \<noteq> []"
      "ols_config c = Some ols'"
    using Config_init_not_null [OF assms(1,2)] by blast
  obtain ols where o: "ols_config c = Some ols"
      "OLSConfig_init (field d ''ols_config'') = Inr ols"
    using Config_init_ols [OF assms(1,2)] by blast
  have "default_model ols = YNull"
  proof (cases "field d ''ols_config'' = YNull")
    case True
    with o(2) show ?thesis
      by (auto simp: OLSConfig_init_def OLSConfig_default_def)
  next
    case False
    with o(2) have "is_map (field d ''ols_config'')"
      by (cases "field d ''ols_config''") (simp_all add: OLSConfig_init_def py_get_def)
    with o(2) assms(3) show ?thesis
      using OLSConfig_init_default_model by simp
  qed
  with l o show ?thesis
    by (simp add: validate_def)
qed

text \<open>
  Claim C2, as stated, fails: \<^verbatim>\<open>load_config\<close> returns the configuration of a document
  without an \<^verbatim>\<open>ols_config\<close> section, and \<^verbatim>\<open>validate\<close> raises on it.
\<close>

theorem load_returns_unvalidated_counterexample:
  "load_config (\<lambda>p. Inr document_without_ols_config) (StrPath ''olsconfig.yaml'') =
     ([], Returned \<lparr>llm_config =
            Some \<lparr>providers =
              [(KStr ''openai'',
                \<lparr>pc_name = YStr ''openai'', pc_url = YNull, pc_credential_path = YNull,
                 pc_models = [(KStr ''gpt-4'',
                   \<lparr>mc_name = YStr ''gpt-4'', mc_url = YNull,
                    mc_credential_path = YNull\<rparr>)]\<rparr>)]\<rparr>,
          ols_config = Some OLSConfig_default\<rparr>) \<and>
   validate \<lparr>llm_config =
            Some \<lparr>providers =
              [(KStr ''openai'',
                \<lparr>pc_name = YStr ''openai'', pc_url = YNull, pc_credential_path = YNull,
                 pc_models = [(KStr ''gpt-4'',
                   \<lparr>mc_name = YStr ''gpt-4'', mc_url = YNull,
                    mc_credential_path = YNull\<rparr>)]\<rparr>)]\<rparr>,
          ols_config = Some OLSConfig_default\<rparr> =
     Inl (Exception (Lit ''default model is not set''))"
  by code_simp

text \<open>
  Claim C2, amended. \<^verbatim>\<open>load_config\<close> does not call \<^verbatim>\<open>validate\<close>: a configuration
  it returns is the one \<^verbatim>\<open>Config(data)\<close> constructed, returned with nothing printed.
  For a document other than \<^verbatim>\<open>None\<close>, construction alone makes the first three checks
  of \<^verbatim>\<open>validate\<close> pass (llm config present, providers non-empty, ols config present).
\<close>

theorem load_returns_constructed:
  assumes "open_and_parse fs config_file = Inr d"
    and "load_config fs config_file = (out, Returned c)"
  shows "out = [] \<and> Config_init d = Inr c \<and>
         (d \<noteq> YNull \<longrightarrow>
            validate c \<noteq> Inl (Exception (Lit ''no llm config found'')) \<and>
            validate c \<noteq> Inl (Exception (Lit ''no llm providers found'')) \<and>
            validate c \<noteq> Inl (Exception (Lit ''no ols config found'')))"
proof -
  from assms have c: "Config_init d = Inr c" and o: "out = []"
    by (auto simp: load_config_def split: sum.splits option.splits)
  have "validate c \<noteq> Inl (Exception (Lit ''no llm config found'')) \<and>
        validate c \<noteq> Inl (Exception (Lit ''no llm providers found'')) \<and>
        validate c \<noteq> Inl (Exception (Lit ''no ols config found''))" if nn: "d \<noteq> YNull"
  proof -
    obtain llm ols where "llm_config c = Some llm" "providers llm \<noteq> []" "ols_config c = Some ols"
      using Config_init_not_null [OF c nn] by blast
    then show ?thesis
      by (simp add: validate_def)
  qed
  with c o show ?thesis by blast
qed

theorem load_returns_constructed_witness:
  "open_and_parse (\<lambda>p. Inr document_without_ols_config) (StrPath ''olsconfig.yaml'') =
     Inr document_without_ols_config \<and>
   (\<exists>c. load_config (\<lambda>p. Inr document_without_ols_config) (StrPath ''olsconfig.yaml'') =
        ([], Returned c) \<and>
      Config_init document_without_ols_config = Inr c \<and>
      validate c \<noteq> Inl (Exception (Lit ''no llm config found'')) \<and>
      validate c \<noteq> Inl (Exception (Lit ''no llm providers found'')) \<and>
      validate c \<noteq> Inl (Exception (Lit ''no ols config found'')))"
proof -
  have p: "open_and_parse (\<lambda>p. Inr document_without_ols_config) (StrPath ''olsconfig.yaml'') =
     Inr document_without_ols_config"
    by simp
  obtain c where c: "Config_init document_without_ols_config = Inr c"
    using Config_init_valid [of document_without_ols_config]
    by (auto simp: valid_document_def document_without_ols_config_def valid_provider_def
        named_def valid_ols_def)
  then have l: "load_config (\<lambda>p. Inr document_without_ols_config) (StrPath ''olsconfig.yaml'') =
     ([], Returned c)"
    by (simp add: load_config_def)
  have "document_without_ols_config \<noteq> YNull"
    by (simp add: document_without_ols_config_def)
  with load_returns_constructed [OF p l] p l show ?thesis
    by blast
qed

lemma load_config_failure_named:
  "name_attr config_file = Some n \<Longrightarrow>
   bindE (open_and_parse fs config_file) Config_init = Inl e \<Longrightarrow>
   load_config fs config_file = ([FailedToLoad n e, Traceback e], Exited 1)"
  by (simp add: load_config_def)

lemma load_config_success:
  "bindE (open_and_parse fs config_file) Config_init = Inr c \<Longrightarrow>
   load_config fs config_file = ([], Returned c)"
  by (simp add: load_config_def)

text \<open>
  Claim C3. With a \<^verbatim>\<open>str\<close> path and a document whose provider has no name,
  construction raises "provider name is missing"; the handler then reads
  \<^verbatim>\<open>config_file.name\<close>, which a \<^verbatim>\<open>str\<close> does not have, so \<^verbatim>\<open>load_config\<close> prints
  nothing and raises \<^verbatim>\<open>AttributeError\<close> instead of exiting with status 1. With a
  \<^verbatim>\<open>pathlib.Path\<close> of the same file it prints the error and the trace and exits with
  status 1.
\<close>

theorem load_failure_with_str_path:
  "bindE (open_and_parse (\<lambda>p. Inr document_missing_provider_name) (StrPath ''olsconfig.yaml''))
      Config_init = Inl (Exception (Lit ''provider name is missing'')) \<and>
   load_config (\<lambda>p. Inr document_missing_provider_name) (StrPath ''olsconfig.yaml'') =
     ([], Raised (AttributeError TStr ''name'')) \<and>
   load_config (\<lambda>p. Inr document_missing_provider_name)
       (PathObj ''olsconfig.yaml'' ''olsconfig.yaml'') =
     ([FailedToLoad ''olsconfig.yaml'' (Exception (Lit ''provider name is missing'')),
       Traceback (Exception (Lit ''provider name is missing''))], Exited 1)"
  by code_simp

section \<open>Duplicate names and the cache section\<close>

lemma models_last_entry:
  assumes "valid_provider p" and "m \<in> set (items (field p ''models''))"
  shows "\<exists>pc mc. ProviderConfig_init p = Inr pc \<and>
           ModelConfig_init (last (filter (\<lambda>e. entry_key e = entry_key m)
              (items (field p ''models'')))) = Inr mc \<and>
           map_of (pc_models pc) (entry_key m) = Some mc \<and>
           length (filter (\<lambda>kv. fst kv = entry_key m) (pc_models pc)) = 1"
proof -
  let ?ms = "items (field p ''models'')"
  let ?same = "filter (\<lambda>e. entry_key e = entry_key m) ?ms"
  let ?d = "fold (\<lambda>e. AList.update (entry_key e) (model_of e)) ?ms []"
  from assms(2) have ne: "?same \<noteq> []"
    by (auto simp: filter_empty_conv)
  then have "last ?same \<in> set ?same"
    by (rule last_in_set)
  then have "last ?same \<in> set ?ms"
    by simp
  moreover from assms(1) have all: "list_all named ?ms"
    by (simp add: valid_provider_def)
  ultimately have "named (last ?same)"
    by (simp add: list_all_iff)
  then have mc: "ModelConfig_init (last ?same) = Inr (model_of (last ?same))"
    by (rule ModelConfig_init_named)
  have pc: "ProviderConfig_init p = Inr (provider_of p)"
    using assms(1) by (rule ProviderConfig_init_valid)
  have d: "pc_models (provider_of p) = ?d"
    by (simp add: provider_of_def)
  have look: "map_of ?d (entry_key m) = Some (model_of (last ?same))"
    using assms(2) by (simp add: fold_update_map_of)
  have "distinct (map fst ?d)"
    by (rule fold_update_distinct) simp
  moreover have "entry_key m \<in> fst ` set ?d"
    using assms(2) by (simp add: fold_update_keys)
  ultimately have one: "length (filter (\<lambda>kv. fst kv = entry_key m) ?d) = 1"
    by (rule distinct_one_entry)
  show ?thesis
    using pc mc look one d by simp
qed

lemma providers_last_entry:
  assumes "ps \<noteq> []" and "list_all valid_provider ps" and "p \<in> set ps"
  shows "\<exists>llm pc. LLMConfig_init (YList ps) = Inr llm \<and>
           ProviderConfig_init (last (filter (\<lambda>e. entry_key e = entry_key p) ps)) = Inr pc \<and>
           map_of (providers llm) (entry_key p) = Some pc \<and>
           length (filter (\<lambda>kv. fst kv = entry_key p) (providers llm)) = 1"
proof -
  let ?same = "filter (\<lambda>e. entry_key e = entry_key p) ps"
  let ?d = "fold (\<lambda>e. AList.update (entry_key e) (provider_of e)) ps []"
  from assms(3) have ne: "?same \<noteq> []"
    by (auto simp: filter_empty_conv)
  then have "last ?same \<in> set ?same"
    by (rule last_in_set)
  then have "last ?same \<in> set ps"
    by simp
  with assms(2) have "valid_provider (last ?same)"
    by (simp add: list_all_iff)
  then have pc: "ProviderConfig_init (last ?same) = Inr (provider_of (last ?same))"
    by (rule ProviderConfig_init_valid)
  have llm: "LLMConfig_init (YList ps) = Inr \<lparr>providers = ?d\<rparr>"
    using assms(1,2) by (rule LLMConfig_init_valid)
  have look: "map_of ?d (entry_key p) = Some (provider_of (last ?same))"
    using assms(3) by (simp add: fold_update_map_of)
  have "distinct (map fst ?d)"
    by (rule fold_update_distinct) simp
  moreover have "entry_key p \<in> fst ` set ?d"
    using assms(3) by (simp add: fold_update_keys)
  ultimately have one: "length (filter (\<lambda>kv. fst kv = entry_key p) ?d) = 1"
    by (rule distinct_one_entry)
  show ?thesis
    using pc llm look one by simp
qed

text \<open>
  Claim C5. In a list of valid model entries (of a provider) or of valid provider entries
  (of \<^verbatim>\<open>llm_providers\<close>), construction succeeds, and for every entry of the list the
  resulting dict holds exactly one entry under its name, equal to the configuration
  built from the last list entry bearing that name.
\<close>

theorem last_entry_wins:
  "(valid_provider p \<and> m \<in> set (items (field p ''models'')) \<longrightarrow>
      (\<exists>pc mc. ProviderConfig_init p = Inr pc \<and>
         ModelConfig_init (last (filter (\<lambda>e. entry_key e = entry_key m)
            (items (field p ''models'')))) = Inr mc \<and>
         map_of (pc_models pc) (entry_key m) = Some mc \<and>
         length (filter (\<lambda>kv. fst kv = entry_key m) (pc_models pc)) = 1)) \<and>
   (ps \<noteq> [] \<and> list_all valid_provider ps \<and> q \<in> set ps \<longrightarrow>
      (\<exists>llm pc. LLMConfig_init (YList ps) = Inr llm \<and>
         ProviderConfig_init (last (filter (\<lambda>e. entry_key e = entry_key q) ps)) = Inr pc \<and>
         map_of (providers llm) (entry_key q) = Some pc \<and>
         length (filter (\<lambda>kv. fst kv = entry_key q) (providers llm)) = 1))"
  using models_last_entry [of p m] providers_last_entry [of ps q] by blast

theorem last_entry_wins_witness:
  "(\<exists>pc. ProviderConfig_init provider_with_duplicate_models = Inr pc \<and>
      map_of (pc_models pc) (KStr ''gpt-4'') =
        Some \<lparr>mc_name = YStr ''gpt-4'', mc_url = YStr ''https://last'',
              mc_credential_path = YNull\<rparr> \<and>
      length (filter (\<lambda>kv. fst kv = KStr ''gpt-4'') (pc_models pc)) = 1) \<and>
   (\<exists>llm pc. LLMConfig_init (YList duplicate_providers) = Inr llm \<and>
      ProviderConfig_init (duplicate_providers ! 1) = Inr pc \<and>
      map_of (providers llm) (KStr ''openai'') = Some pc \<and>
      length (filter (\<lambda>kv. fst kv = KStr ''openai'') (providers llm)) = 1)"
proof -
  let ?m = "YMap [(''name'', YStr ''gpt-4''), (''url'', YStr ''https://first'')]"
  let ?q = "duplicate_providers ! 0"
  have v: "valid_provider provider_with_duplicate_models"
    by code_simp
  have i: "?m \<in> set (items (field provider_with_duplicate_models ''models''))"
    by (simp add: provider_with_duplicate_models_def)
  have k: "entry_key ?m = KStr ''gpt-4''"
    by (simp add: entry_key_def)
  have l: "last (filter (\<lambda>e. entry_key e = KStr ''gpt-4'')
             (items (field provider_with_duplicate_models ''models''))) =
           YMap [(''name'', YStr ''gpt-4''), (''url'', YStr ''https://last'')]"
    by (simp add: provider_with_duplicate_models_def entry_key_def)
  have mc: "ModelConfig_init (YMap [(''name'', YStr ''gpt-4''), (''url'', YStr ''https://last'')]) =
      Inr \<lparr>mc_name = YStr ''gpt-4'', mc_url = YStr ''https://last'',
              mc_credential_path = YNull\<rparr>"
    by (simp add: ModelConfig_init_def)
  have n: "duplicate_providers \<noteq> []"
    by (simp add: duplicate_providers_def)
  have a: "list_all valid_provider duplicate_providers"
    by code_simp
  have j: "?q \<in> set duplicate_providers"
    by (simp add: duplicate_providers_def)
  have kq: "entry_key ?q = KStr ''openai''"
    by (simp add: entry_key_def duplicate_providers_def)
  have lq: "last (filter (\<lambda>e. entry_key e = KStr ''openai'') duplicate_providers) =
      duplicate_providers ! 1"
    by (simp add: duplicate_providers_def entry_key_def)
  from last_entry_wins [of provider_with_duplicate_models ?m duplicate_providers ?q]
  show ?thesis
    using v i n a j unfolding k l mc kq lq by blast
qed

text \<open>
  Claim C6. For a \<^verbatim>\<open>conversation_cache\<close> mapping: type "redis" with no redis block
  raises "redis config is missing"; type "memory" with no memory block raises "memory
  config is missing"; any other type, or none, is accepted with neither sub-config.
\<close>

theorem cache_type_requires_block:
  assumes "is_map data"
  shows "(field data ''type'' = YStr ''redis'' \<and> field data ''redis'' = YNull \<longrightarrow>
            ConversationCacheConfig_init data =
              Inl (Exception (Lit ''redis config is missing''))) \<and>
         (field data ''type'' = YStr ''memory'' \<and> field data ''memory'' = YNull \<longrightarrow>
            ConversationCacheConfig_init data =
              Inl (Exception (Lit ''memory config is missing''))) \<and>
         (field data ''type'' \<noteq> YStr ''redis'' \<and> field data ''type'' \<noteq> YStr ''memory'' \<longrightarrow>
            ConversationCacheConfig_init data =
              Inr \<lparr>cc_type = field data ''type'', cc_redis = None, cc_memory = None\<rparr>)"
  using assms by (cases data) (simp_all add: ConversationCacheConfig_init_def)

theorem cache_type_requires_block_witness:
  "ConversationCacheConfig_init (YMap [(''type'', YStr ''redis'')]) =
     Inl (Exception (Lit ''redis config is missing'')) \<and>
   ConversationCacheConfig_init (YMap [(''type'', YStr ''memory''), (''redis'', YMap [])]) =
     Inl (Exception (Lit ''memory config is missing'')) \<and>
   ConversationCacheConfig_init (YMap [(''type'', YStr ''postgres'')]) =
     Inr \<lparr>cc_type = YStr ''postgres'', cc_redis = None, cc_memory = None\<rparr> \<and>
   ConversationCacheConfig_init (YMap []) =
     Inr \<lparr>cc_type = YNull, cc_redis = None, cc_memory = None\<rparr>"
  using cache_type_requires_block [of "YMap [(''type'', YStr ''redis'')]"]
    cache_type_requires_block [of "YMap [(''type'', YStr ''memory''), (''redis'', YMap [])]"]
    cache_type_requires_block [of "YMap [(''type'', YStr ''postgres'')]"]
    cache_type_requires_block [of "YMap []"]
  by simp

section \<open>Entries without a name\<close>

lemma py_get_not_map: "\<not> is_map v \<Longrightarrow> py_get v k = Inl (AttributeError (py_type v) ''get'')"
  by (cases v) (simp_all add: py_get_def)

lemma add_model_nameless:
  "nameless m \<Longrightarrow>
   add_model m acc =
     Inl (if is_map m then Exception (Lit ''model name is missing'')
          else AttributeError (py_type m) ''get'')"
  by (cases "is_map m") (simp_all add: nameless_def add_model_def py_get_field py_get_not_map)

lemma add_provider_nameless:
  "nameless p \<Longrightarrow>
   add_provider p acc =
     Inl (if is_map p then Exception (Lit ''provider name is missing'')
          else AttributeError (py_type p) ''get'')"
  by (cases "is_map p") (simp_all add: nameless_def add_provider_def py_get_field py_get_not_map)

lemma add_models_first_failure:
  "list_all named pre \<Longrightarrow> (\<And>acc. add_model m acc = Inl e) \<Longrightarrow>
   add_models (pre @ m # post) acc = Inl e"
  by (induction pre arbitrary: acc) (simp_all add: add_model_named ModelConfig_init_named)

lemma add_providers_first_failure:
  "list_all valid_provider pre \<Longrightarrow> (\<And>acc. add_provider p acc = Inl e) \<Longrightarrow>
   add_providers (pre @ p # post) acc = Inl e"
  by (induction pre arbitrary: acc) (simp_all add: add_provider_valid)

lemma field_list_is_map: "field p k = YList xs \<Longrightarrow> is_map p"
  by (cases p) simp_all

lemma add_provider_models_failure:
  assumes "field p ''name'' \<noteq> YNull" and "field p ''models'' = YList ms" and "ms \<noteq> []"
    and "add_models ms [] = Inl e"
  shows "add_provider p acc = Inl e"
proof -
  from assms(2) have m: "is_map p"
    by (rule field_list_is_map)
  with assms(2,3,4) have "ProviderConfig_init p = Inl e"
    by (simp add: ProviderConfig_init_def ProviderConfig_default_def no_models_def
        py_get_field py_getitem_field is_map_not_null)
  with m assms(1) show ?thesis
    by (simp add: add_provider_def py_get_field)
qed

lemma Config_init_providers_failure:
  assumes "is_map d" and "field d ''llm_providers'' = YList ps" and "ps \<noteq> []"
    and "add_providers ps [] = Inl e"
  shows "Config_init d = Inl e"
  using assms by (simp add: Config_init_def LLMConfig_init_def py_get_field is_map_not_null)

text \<open>A failing loop fails on its first failing entry, with the error of that entry.\<close>

lemma add_models_split:
  "add_models ms acc0 = Inl e \<Longrightarrow>
   \<exists>pre m post acc. ms = pre @ m # post \<and> add_models pre acc0 = Inr acc \<and>
                     add_model m acc = Inl e"
proof (induction ms arbitrary: acc0)
  case Nil
  then show ?case by simp
next
  case (Cons a ms)
  show ?case
  proof (cases "add_model a acc0")
    case (Inl e')
    with Cons.prems have "a # ms = [] @ a # ms \<and> add_models [] acc0 = Inr acc0 \<and>
        add_model a acc0 = Inl e"
      by simp
    then show ?thesis by blast
  next
    case (Inr acc1)
    with Cons.prems have "add_models ms acc1 = Inl e"
      by simp
    from Cons.IH [OF this] obtain pre m post acc where
      "ms = pre @ m # post" "add_models pre acc1 = Inr acc" "add_model m acc = Inl e"
      by blast
    with Inr have "a # ms = (a # pre) @ m # post \<and> add_models (a # pre) acc0 = Inr acc \<and>
        add_model m acc = Inl e"
      by simp
    then show ?thesis by blast
  qed
qed

lemma add_providers_split:
  "add_providers ps acc0 = Inl e \<Longrightarrow>
   \<exists>pre p post acc. ps = pre @ p # post \<and> add_providers pre acc0 = Inr acc \<and>
                     add_provider p acc = Inl e"
proof (induction ps arbitrary: acc0)
  case Nil
  then show ?case by simp
next
  case (Cons a ps)
  show ?case
  proof (cases "add_provider a acc0")
    case (Inl e')
    with Cons.prems have "a # ps = [] @ a # ps \<and> add_providers [] acc0 = Inr acc0 \<and>
        add_provider a acc0 = Inl e"
      by simp
    then show ?thesis by blast
  next
    case (Inr acc1)
    with Cons.prems have "add_providers ps acc1 = Inl e"
      by simp
    from Cons.IH [OF this] obtain pre p post acc where
      "ps = pre @ p # post" "add_providers pre acc1 = Inr acc" "add_provider p acc = Inl e"
      by blast
    with Inr have "a # ps = (a # pre) @ p # post \<and> add_providers (a # pre) acc0 = Inr acc \<and>
        add_provider p acc = Inl e"
      by simp
    then show ?thesis by blast
  qed
qed

text \<open>An entry that always fails is not among the entries a loop got through.\<close>

lemma add_models_passed:
  "add_models pre acc0 = Inr acc \<Longrightarrow> (\<And>a. \<exists>e. add_model m a = Inl e) \<Longrightarrow> m \<notin> set pre"
proof (induction pre arbitrary: acc0)
  case Nil
  then show ?case by simp
next
  case (Cons a pre)
  from Cons.prems(1) obtain acc1 where s: "add_model a acc0 = Inr acc1"
      "add_models pre acc1 = Inr acc"
    by (cases "add_model a acc0") simp_all
  from s(1) Cons.prems(2) [of acc0] have "a \<noteq> m"
    by auto
  with Cons.IH [OF s(2) Cons.prems(2)] show ?case
    by simp
qed

lemma add_providers_passed:
  "add_providers pre acc0 = Inr acc \<Longrightarrow> (\<And>a. \<exists>e. add_provider p a = Inl e) \<Longrightarrow>
   p \<notin> set pre"
proof (induction pre arbitrary: acc0)
  case Nil
  then show ?case by simp
next
  case (Cons a pre)
  from Cons.prems(1) obtain acc1 where s: "add_provider a acc0 = Inr acc1"
      "add_providers pre acc1 = Inr acc"
    by (cases "add_provider a acc0") simp_all
  from s(1) Cons.prems(2) [of acc0] have "a \<noteq> p"
    by auto
  with Cons.IH [OF s(2) Cons.prems(2)] show ?case
    by simp
qed

lemma add_models_fails:
  "m \<in> set ms \<Longrightarrow> (\<And>a. \<exists>e. add_model m a = Inl e) \<Longrightarrow> \<exists>e. add_models ms acc = Inl e"
proof (cases "add_models ms acc")
  case (Inl e)
  then show ?thesis by blast
next
  case (Inr acc')
  assume "m \<in> set ms" and "\<And>a. \<exists>e. add_model m a = Inl e"
  with add_models_passed [OF Inr] show ?thesis
    by blast
qed

lemma add_providers_fails:
  "p \<in> set ps \<Longrightarrow> (\<And>a. \<exists>e. add_provider p a = Inl e) \<Longrightarrow>
   \<exists>e. add_providers ps acc = Inl e"
proof (cases "add_providers ps acc")
  case (Inl e)
  then show ?thesis by blast
next
  case (Inr acc')
  assume "p \<in> set ps" and "\<And>a. \<exists>e. add_provider p a = Inl e"
  with add_providers_passed [OF Inr] show ?thesis
    by blast
qed

lemma provider_first_failing_model:
  assumes "field p ''name'' \<noteq> YNull" and "m \<in> set (items (field p ''models''))"
    and "nameless m"
  shows "\<exists>mpre m' mpost macc e.
           items (field p ''models'') = mpre @ m' # mpost \<and> m \<notin> set mpre \<and>
           add_models mpre [] = Inr macc \<and> add_model m' macc = Inl e \<and>
           (\<forall>acc. add_provider p acc = Inl e)"
proof -
  from assms(2) obtain ms where ms: "field p ''models'' = YList ms" "m \<in> set ms"
    by (cases "field p ''models''") auto
  have always: "\<And>a. \<exists>e. add_model m a = Inl e"
    using add_model_nameless [OF assms(3)] by blast
  obtain e where e: "add_models ms [] = Inl e"
    using add_models_fails [OF ms(2) always] by blast
  then obtain mpre m' mpost macc where s: "ms = mpre @ m' # mpost"
      "add_models mpre [] = Inr macc" "add_model m' macc = Inl e"
    using add_models_split by blast
  have "m \<notin> set mpre"
    using s(2) always by (rule add_models_passed)
  moreover from ms(2) have "ms \<noteq> []"
    by auto
  then have "\<forall>acc. add_provider p acc = Inl e"
    using add_provider_models_failure [OF assms(1) ms(1) _ e] by blast
  ultimately show ?thesis
    using s ms(1) by auto
qed

text \<open>
  Claim C7, as stated, fails. In the first document the second provider entry has no
  name, and construction fails on the first entry, which has no models, with the
  no-models error. In the second document the provider entry is a string, which has no
  \<^verbatim>\<open>name\<close> key, and construction fails with the \<^verbatim>\<open>AttributeError\<close> of its \<^verbatim>\<open>.get\<close> call.
\<close>

theorem missing_name_counterexample:
  "lacks_name (items (field document_nameless_after_empty_provider ''llm_providers'') ! 1) \<and>
   Config_init document_nameless_after_empty_provider =
     Inl (Exception (Fmt ''no models configured for provider '' (YStr ''openai''))) \<and>
   nameless (items (field document_string_provider ''llm_providers'') ! 0) \<and>
   Config_init document_string_provider = Inl (AttributeError TStr ''get'')"
  by code_simp

text \<open>
  Claim C7, amended. When some provider entry of \<^verbatim>\<open>llm_providers\<close>, or some model entry
  of a provider's \<^verbatim>\<open>models\<close>, has no non-null \<^verbatim>\<open>name\<close>, construction fails: it fails on
  the first list entry whose processing fails, with the error of that entry, and the
  offending entry is not among the entries processed before it (so no entry after the
  offending one is processed). This holds in the list of providers (third part) and in
  the list of models of a named provider, whose error is then the error of the provider
  entry (fourth part). When every list entry before the offending one is valid, the
  error is the missing-name error if the offending entry is a mapping, and the
  \<^verbatim>\<open>AttributeError\<close> of its \<^verbatim>\<open>.get\<close> call if it is not, whatever the entries after it
  are (first and second part).
\<close>

theorem missing_name_fails:
  assumes "is_map d" and "field d ''llm_providers'' = YList ps"
  shows "(ps = pre @ bad # post \<and> list_all valid_provider pre \<and> nameless bad \<longrightarrow>
            Config_init d =
              Inl (if is_map bad then Exception (Lit ''provider name is missing'')
                   else AttributeError (py_type bad) ''get'')) \<and>
         (ps = pre @ p # post \<and> list_all valid_provider pre \<and>
          field p ''name'' \<noteq> YNull \<and>
          field p ''models'' = YList (mpre @ bad # mpost) \<and>
          list_all named mpre \<and> nameless bad \<longrightarrow>
            Config_init d =
              Inl (if is_map bad then Exception (Lit ''model name is missing'')
                   else AttributeError (py_type bad) ''get'')) \<and>
         (q \<in> set ps \<and>
          (nameless q \<or> (\<exists>m\<in>set (items (field q ''models'')). nameless m)) \<longrightarrow>
            (\<exists>fpre f fpost acc e.
               ps = fpre @ f # fpost \<and> q \<notin> set fpre \<and>
               add_providers fpre [] = Inr acc \<and> add_provider f acc = Inl e \<and>
               Config_init d = Inl e)) \<and>
         (field r ''name'' \<noteq> YNull \<and> m \<in> set (items (field r ''models'')) \<and> nameless m \<longrightarrow>
            (\<exists>fpre f fpost acc e.
               items (field r ''models'') = fpre @ f # fpost \<and> m \<notin> set fpre \<and>
               add_models fpre [] = Inr acc \<and> add_model f acc = Inl e \<and>
               (\<forall>provs. add_provider r provs = Inl e)))"
proof (intro conjI impI)
  let ?e = "if is_map bad then Exception (Lit ''provider name is missing'')
            else AttributeError (py_type bad) ''get''"
  assume a: "ps = pre @ bad # post \<and> list_all valid_provider pre \<and> nameless bad"
  then have "\<And>acc. add_provider bad acc = Inl ?e"
    using add_provider_nameless by blast
  with a have "add_providers ps [] = Inl ?e"
    using add_providers_first_failure [of pre bad ?e post "[]"] by simp
  moreover from a have "ps \<noteq> []"
    by simp
  ultimately show "Config_init d = Inl ?e"
    using assms Config_init_providers_failure by blast
next
  let ?e = "if is_map bad then Exception (Lit ''model name is missing'')
            else AttributeError (py_type bad) ''get''"
  assume a: "ps = pre @ p # post \<and> list_all valid_provider pre \<and>
          field p ''name'' \<noteq> YNull \<and>
          field p ''models'' = YList (mpre @ bad # mpost) \<and>
          list_all named mpre \<and> nameless bad"
  then have "\<And>acc. add_model bad acc = Inl ?e"
    using add_model_nameless by blast
  with a have "add_models (mpre @ bad # mpost) [] = Inl ?e"
    using add_models_first_failure [of mpre bad ?e mpost "[]"] by simp
  with a have "\<And>acc. add_provider p acc = Inl ?e"
    using add_provider_models_failure [of p "mpre @ bad # mpost" ?e] by simp
  with a have "add_providers ps [] = Inl ?e"
    using add_providers_first_failure [of pre p ?e post "[]"] by simp
  moreover from a have "ps \<noteq> []"
    by simp
  ultimately show "Config_init d = Inl ?e"
    using assms Config_init_providers_failure by blast
next
  assume a: "q \<in> set ps \<and>
          (nameless q \<or> (\<exists>m\<in>set (items (field q ''models'')). nameless m))"
  have always: "\<And>acc. \<exists>e. add_provider q acc = Inl e"
  proof (cases "nameless q")
    case True
    then show "\<exists>e. add_provider q acc = Inl e" for acc
      using add_provider_nameless by blast
  next
    case False
    with a obtain m where m: "m \<in> set (items (field q ''models''))" "nameless m"
      by blast
    from False have "field q ''name'' \<noteq> YNull"
      by (simp add: nameless_def)
    then show "\<exists>e. add_provider q acc = Inl e" for acc
      using provider_first_failing_model [OF _ m] by blast
  qed
  from a have qs: "q \<in> set ps"
    by simp
  obtain e where e: "add_providers ps [] = Inl e"
    using add_providers_fails [OF qs always] by blast
  then obtain fpre f fpost acc where s: "ps = fpre @ f # fpost"
      "add_providers fpre [] = Inr acc" "add_provider f acc = Inl e"
    using add_providers_split by blast
  have "q \<notin> set fpre"
    using s(2) always by (rule add_providers_passed)
  moreover from qs have "ps \<noteq> []"
    by auto
  then have "Config_init d = Inl e"
    using assms e Config_init_providers_failure by blast
  ultimately show "\<exists>fpre f fpost acc e.
               ps = fpre @ f # fpost \<and> q \<notin> set fpre \<and>
               add_providers fpre [] = Inr acc \<and> add_provider f acc = Inl e \<and>
               Config_init d = Inl e"
    using s by blast
next
  assume "field r ''name'' \<noteq> YNull \<and> m \<in> set (items (field r ''models'')) \<and> nameless m"
  then show "\<exists>fpre f fpost acc e.
               items (field r ''models'') = fpre @ f # fpost \<and> m \<notin> set fpre \<and>
               add_models fpre [] = Inr acc \<and> add_model f acc = Inl e \<and>
               (\<forall>provs. add_provider r provs = Inl e)"
    using provider_first_failing_model [of r m] by blast
qed

theorem missing_name_fails_witness:
  "Config_init document_nameless_second_provider =
     Inl (Exception (Lit ''provider name is missing'')) \<and>
   Config_init document_string_provider = Inl (AttributeError TStr ''get'') \<and>
   Config_init document_nameless_second_model =
     Inl (Exception (Lit ''model name is missing'')) \<and>
   (\<exists>fpre f fpost acc.
      items (field document_nameless_after_empty_provider ''llm_providers'') =
        fpre @ f # fpost \<and>
      items (field document_nameless_after_empty_provider ''llm_providers'') ! 1 \<notin> set fpre \<and>
      add_providers fpre [] = Inr acc \<and>
      add_provider f acc =
        Inl (Exception (Fmt ''no models configured for provider '' (YStr ''openai''))) \<and>
      Config_init document_nameless_after_empty_provider =
        Inl (Exception (Fmt ''no models configured for provider '' (YStr ''openai'')))) \<and>
   (\<exists>fpre f fpost acc.
      [YMap [(''name'', YStr ''gpt-4'')], YMap [(''url'', YStr ''https://api.example.com'')],
       YInt 7] = fpre @ f # fpost \<and>
      YMap [(''url'', YStr ''https://api.example.com'')] \<notin> set fpre \<and>
      add_models fpre [] = Inr acc \<and>
      add_model f acc = Inl (Exception (Lit ''model name is missing'')))"
proof -
  let ?openai = "YMap [(''name'', YStr ''openai''),
                       (''models'', YList [YMap [(''name'', YStr ''gpt-4'')]])]"
  let ?nameless = "YMap [(''url'', YStr ''https://api.example.com'')]"
  let ?ps1 = "[?openai, ?nameless, YStr ''not a mapping'']"
  have m1: "is_map document_nameless_second_provider"
    by (simp add: document_nameless_second_provider_def)
  have f1: "field document_nameless_second_provider ''llm_providers'' = YList ?ps1"
    by (simp add: document_nameless_second_provider_def)
  have h1: "?ps1 = [?openai] @ ?nameless # [YStr ''not a mapping''] \<and>
      list_all valid_provider [?openai] \<and> nameless ?nameless"
    by code_simp
  have l1: "nameless ?nameless" "is_map ?nameless"
    by (simp_all add: nameless_def)
  have one: "Config_init document_nameless_second_provider =
     Inl (Exception (Lit ''provider name is missing''))"
    using missing_name_fails [OF m1 f1, THEN conjunct1, THEN mp, OF h1] l1(2)
    by (simp only: if_True)
  have m0: "is_map document_string_provider"
    by (simp add: document_string_provider_def)
  have f0: "field document_string_provider ''llm_providers'' = YList [YStr ''openai'']"
    by (simp add: document_string_provider_def)
  have h0: "[YStr ''openai''] = [] @ YStr ''openai'' # [] \<and> list_all valid_provider [] \<and>
      nameless (YStr ''openai'')"
    by (simp add: nameless_def)
  have zero: "Config_init document_string_provider = Inl (AttributeError TStr ''get'')"
    using missing_name_fails [OF m0 f0, THEN conjunct1, THEN mp, OF h0]
    by simp
  let ?ms = "[YMap [(''name'', YStr ''gpt-4'')], ?nameless, YInt 7]"
  let ?p = "YMap [(''name'', YStr ''openai''), (''models'', YList ?ms)]"
  have m2: "is_map document_nameless_second_model"
    by (simp add: document_nameless_second_model_def)
  have f2: "field document_nameless_second_model ''llm_providers'' = YList [?p]"
    by (simp add: document_nameless_second_model_def)
  have v2: "list_all named [YMap [(''name'', YStr ''gpt-4'')]]"
    by code_simp
  have h2: "[?p] = [] @ ?p # [] \<and> list_all valid_provider [] \<and>
    field ?p ''name'' \<noteq> YNull \<and>
    field ?p ''models'' = YList ([YMap [(''name'', YStr ''gpt-4'')]] @ ?nameless # [YInt 7]) \<and>
    list_all named [YMap [(''name'', YStr ''gpt-4'')]] \<and> nameless ?nameless"
    using v2 l1(1) by simp
  have two: "Config_init document_nameless_second_model =
     Inl (Exception (Lit ''model name is missing''))"
    using missing_name_fails [OF m2 f2, THEN conjunct2, THEN conjunct1, THEN mp, OF h2] l1(2)
    by (simp only: if_True)
  let ?d3 = "document_nameless_after_empty_provider"
  let ?q = "YMap [(''url'', YStr ''https://api.example.com''),
                  (''models'', YList [YMap [(''name'', YStr ''gpt-4'')]])]"
  let ?ps3 = "[YMap [(''name'', YStr ''openai''), (''models'', YList [])], ?q]"
  have m3: "is_map ?d3"
    by (simp add: document_nameless_after_empty_provider_def)
  have f3: "field ?d3 ''llm_providers'' = YList ?ps3"
    by (simp add: document_nameless_after_empty_provider_def)
  have i3: "items (field ?d3 ''llm_providers'') = ?ps3"
    by (simp add: f3)
  have n3: "?ps3 ! 1 = ?q"
    by simp
  have h3: "?q \<in> set ?ps3 \<and>
      (nameless ?q \<or> (\<exists>m\<in>set (items (field ?q ''models'')). nameless m))"
    by (simp add: nameless_def)
  have c3: "Config_init ?d3 =
      Inl (Exception (Fmt ''no models configured for provider '' (YStr ''openai'')))"
    by code_simp
  from missing_name_fails [OF m3 f3, THEN conjunct2, THEN conjunct2, THEN conjunct1, THEN mp,
      OF h3]
  obtain fpre f fpost acc e where t:
    "?ps3 = fpre @ f # fpost" "?q \<notin> set fpre" "add_providers fpre [] = Inr acc"
    "add_provider f acc = Inl e" "Config_init ?d3 = Inl e"
    by blast
  from t(5) c3 have e3: "e = Exception (Fmt ''no models configured for provider '' (YStr ''openai''))"
    by simp
  have three: "\<exists>fpre f fpost acc.
      items (field ?d3 ''llm_providers'') = fpre @ f # fpost \<and>
      items (field ?d3 ''llm_providers'') ! 1 \<notin> set fpre \<and>
      add_providers fpre [] = Inr acc \<and>
      add_provider f acc =
        Inl (Exception (Fmt ''no models configured for provider '' (YStr ''openai''))) \<and>
      Config_init ?d3 =
        Inl (Exception (Fmt ''no models configured for provider '' (YStr ''openai'')))"
    unfolding i3 n3 using t c3 unfolding e3 by blast
  have i4: "items (field ?p ''models'') = ?ms"
    by simp
  have h4: "field ?p ''name'' \<noteq> YNull \<and> ?nameless \<in> set (items (field ?p ''models'')) \<and>
      nameless ?nameless"
    using l1(1) by simp
  have c4: "add_provider ?p [] = Inl (Exception (Lit ''model name is missing''))"
    by code_simp
  from missing_name_fails [OF m2 f2, THEN conjunct2, THEN conjunct2, THEN conjunct2, THEN mp,
      OF h4]
  obtain mfpre mf mfpost macc me where u:
    "items (field ?p ''models'') = mfpre @ mf # mfpost" "?nameless \<notin> set mfpre"
    "add_models mfpre [] = Inr macc" "add_model mf macc = Inl me"
    "\<forall>provs. add_provider ?p provs = Inl me"
    by blast
  from u(5) have "add_provider ?p [] = Inl me"
    by blast
  with c4 have e4: "me = Exception (Lit ''model name is missing'')"
    by simp
  have four: "\<exists>fpre f fpost acc.
      ?ms = fpre @ f # fpost \<and> ?nameless \<notin> set fpre \<and>
      add_models fpre [] = Inr acc \<and>
      add_model f acc = Inl (Exception (Lit ''model name is missing''))"
    using u(1,2,3,4) unfolding i4 e4 by blast
  from one zero two three four show ?thesis
    by blast
qed

section \<open>The sections of OLSConfig\<close>

lemma OLSConfig_init_sections:
  assumes "is_map s" and "OLSConfig_init s = Inr ols"
  shows "\<exists>cache logger. conversation_cache ols = Some cache \<and> logger_config ols = Some logger"
  using assms
  by (auto simp: OLSConfig_init_def bindE_def is_map_not_null split: sum.splits)

text \<open>
  Claim C9. When the \<^verbatim>\<open>ols_config\<close> section of the document is a mapping (even an empty
  one), the constructed \<^verbatim>\<open>OLSConfig\<close> holds a conversation-cache object and a
  logger-config object; so \<^verbatim>\<open>validate\<close> raises neither "conversation cache is not set"
  nor "logger config is not set" on the constructed configuration, whatever values
  \<^verbatim>\<open>default_model\<close> and \<^verbatim>\<open>classifier_model\<close> hold.
\<close>

theorem ols_sections_present:
  assumes "Config_init d = Inr c" and "is_map (field d ''ols_config'')"
  shows "\<exists>ols cache logger.
           ols_config c = Some ols \<and> conversation_cache ols = Some cache \<and>
           logger_config ols = Some logger \<and>
           (\<forall>dm cm.
              validate (c\<lparr>ols_config := Some (ols\<lparr>default_model := dm, classifier_model := cm\<rparr>)\<rparr>)
                \<noteq> Inl (Exception (Lit ''conversation cache is not set'')) \<and>
              validate (c\<lparr>ols_config := Some (ols\<lparr>default_model := dm, classifier_model := cm\<rparr>)\<rparr>)
                \<noteq> Inl (Exception (Lit ''logger config is not set'')))"
proof -
  from assms(2) have m: "is_map d"
    by (cases d) auto
  then have nn: "d \<noteq> YNull"
    by (rule is_map_not_null)
  from assms(1) m nn obtain llm ols where
    c: "c = \<lparr>llm_config = Some llm, ols_config = Some ols\<rparr>"
    and o: "OLSConfig_init (field d ''ols_config'') = Inr ols"
    by (auto simp: Config_init_def bindE_def py_get_field split: sum.splits)
  obtain cache logger where s: "conversation_cache ols = Some cache" "logger_config ols = Some logger"
    using OLSConfig_init_sections [OF assms(2) o] by blast
  show ?thesis
    using c s by (simp add: validate_def)
qed

theorem ols_sections_present_witness:
  "is_map (field (YMap [(''llm_providers'',
        YList [YMap [(''name'', YStr ''openai''),
                     (''models'', YList [YMap [(''name'', YStr ''gpt-4'')]])]]),
        (''ols_config'', YMap [])]) ''ols_config'') \<and>
   (\<exists>c ols cache logger.
      Config_init (YMap [(''llm_providers'',
        YList [YMap [(''name'', YStr ''openai''),
                     (''models'', YList [YMap [(''name'', YStr ''gpt-4'')]])]]),
        (''ols_config'', YMap [])]) = Inr c \<and>
      ols_config c = Some ols \<and> conversation_cache ols = Some cache \<and>
      logger_config ols = Some logger \<and>
      validate (c\<lparr>ols_config := Some (ols\<lparr>default_model := YStr ''gpt-4'',
                                          classifier_model := YStr ''gpt-4''\<rparr>)\<rparr>) = Inr ())"
proof -
  let ?d = "YMap [(''llm_providers'',
        YList [YMap [(''name'', YStr ''openai''),
                     (''models'', YList [YMap [(''name'', YStr ''gpt-4'')]])]]),
        (''ols_config'', YMap [])]"
  have m: "is_map (field ?d ''ols_config'')"
    by simp
  have "valid_document ?d"
    by code_simp
  then obtain c where c: "Config_init ?d = Inr c"
    using Config_init_valid [of ?d] by blast
  then have l: "\<exists>llm. llm_config c = Some llm \<and> providers llm \<noteq> []"
    using Config_init_not_null [of ?d c] by auto
  from ols_sections_present [OF c m] obtain ols cache logger where
    o: "ols_config c = Some ols" "conversation_cache ols = Some cache"
      "logger_config ols = Some logger"
    by blast
  with l have "validate (c\<lparr>ols_config := Some (ols\<lparr>default_model := YStr ''gpt-4'',
                                          classifier_model := YStr ''gpt-4''\<rparr>)\<rparr>) = Inr ()"
    by (auto simp: validate_def)
  with m c o show ?thesis
    by blast
qed

section \<open>ModelConfig without data\<close>

lemma ModelConfig_init_no_exception: "ModelConfig_init data \<noteq> Inl (Exception msg)"
  by (cases data) (simp_all add: ModelConfig_init_def py_get_def)

lemma bindE_InlE:
  assumes "bindE m f = Inl e"
  obtains "m = Inl e" | v where "m = Inr v" and "f v = Inl e"
  using assms by (cases m) simp_all

lemma py_key_not_subscript: "py_key v \<noteq> Inl (TypeError (NotSubscriptable t))"
  by (cases v) simp_all

lemma py_len_not_subscript: "py_len v \<noteq> Inl (TypeError (NotSubscriptable t))"
  by (cases v) simp_all

lemma py_iter_not_subscript: "py_iter v \<noteq> Inl (TypeError (NotSubscriptable t))"
  by (cases v) simp_all

lemma py_get_not_type_error: "py_get v k \<noteq> Inl (TypeError x)"
  by (cases v) (simp_all add: py_get_def)

lemma py_get_default_not_type_error: "py_get_default v k d \<noteq> Inl (TypeError x)"
  by (cases v) simp_all

lemma py_get_Inr_map: "py_get v k = Inr w \<Longrightarrow> is_map v"
  by (cases v) (simp_all add: py_get_def)

lemma py_getitem_map_not_type_error: "is_map v \<Longrightarrow> py_getitem v k \<noteq> Inl (TypeError x)"
  by (cases v) (simp_all split: option.splits)

lemma ModelConfig_init_map_not_type_error: "is_map v \<Longrightarrow> ModelConfig_init v \<noteq> Inl (TypeError x)"
  by (cases v) (simp_all add: ModelConfig_init_def)

lemmas not_subscript_simps =
  py_key_not_subscript py_len_not_subscript py_iter_not_subscript py_get_not_type_error
  py_get_default_not_type_error py_getitem_map_not_type_error
  ModelConfig_init_map_not_type_error

lemma add_model_not_subscript:
  "add_model m acc \<noteq> Inl (TypeError (NotSubscriptable t))"
  unfolding add_model_def
  by (auto elim!: bindE_InlE simp: not_subscript_simps dest!: py_get_Inr_map split: if_splits)

lemma add_models_not_subscript:
  "add_models ms acc \<noteq> Inl (TypeError (NotSubscriptable t))"
proof (induction ms arbitrary: acc)
  case Nil
  then show ?case by simp
next
  case (Cons m ms)
  then show ?case
    using add_model_not_subscript [of m acc t] by (auto split: sum.splits)
qed

lemma no_models_not_subscript: "no_models p \<noteq> Inl (TypeError (NotSubscriptable t))"
  unfolding no_models_def
  by (auto elim!: bindE_InlE simp: not_subscript_simps dest!: py_get_Inr_map split: if_splits)

lemma ProviderConfig_init_not_subscript:
  "ProviderConfig_init p \<noteq> Inl (TypeError (NotSubscriptable t))"
  unfolding ProviderConfig_init_def
  by (auto elim!: bindE_InlE simp: not_subscript_simps no_models_not_subscript
      add_models_not_subscript dest!: py_get_Inr_map split: if_splits)

lemma add_provider_not_subscript:
  "add_provider p acc \<noteq> Inl (TypeError (NotSubscriptable t))"
  unfolding add_provider_def
  by (auto elim!: bindE_InlE simp: not_subscript_simps ProviderConfig_init_not_subscript
      dest!: py_get_Inr_map split: if_splits)

lemma add_providers_not_subscript:
  "add_providers ps acc \<noteq> Inl (TypeError (NotSubscriptable t))"
proof (induction ps arbitrary: acc)
  case Nil
  then show ?case by simp
next
  case (Cons p ps)
  then show ?case
    using add_provider_not_subscript [of p acc t] by (auto split: sum.splits)
qed

lemma LLMConfig_init_not_subscript:
  "LLMConfig_init lp \<noteq> Inl (TypeError (NotSubscriptable t))"
  unfolding LLMConfig_init_def
  by (auto elim!: bindE_InlE simp: not_subscript_simps add_providers_not_subscript
      split: if_splits)

lemma RedisConfig_init_not_type_error: "RedisConfig_init r \<noteq> Inl (TypeError x)"
  unfolding RedisConfig_init_def
  by (auto elim!: bindE_InlE simp: py_get_not_type_error split: if_splits)

lemma MemoryConfig_init_not_type_error: "MemoryConfig_init r \<noteq> Inl (TypeError x)"
  unfolding MemoryConfig_init_def
  by (auto elim!: bindE_InlE simp: py_get_not_type_error split: if_splits)

lemma LoggerConfig_init_not_type_error: "LoggerConfig_init r \<noteq> Inl (TypeError x)"
  unfolding LoggerConfig_init_def
  by (auto elim!: bindE_InlE simp: py_get_not_type_error split: if_splits)

lemma ConversationCacheConfig_init_not_type_error:
  "ConversationCacheConfig_init r \<noteq> Inl (TypeError x)"
  unfolding ConversationCacheConfig_init_def
  by (auto elim!: bindE_InlE simp: py_get_not_type_error RedisConfig_init_not_type_error
      MemoryConfig_init_not_type_error split: if_splits)

lemma OLSConfig_init_not_type_error: "OLSConfig_init s \<noteq> Inl (TypeError x)"
  unfolding OLSConfig_init_def
  by (auto elim!: bindE_InlE simp: py_get_not_type_error py_get_default_not_type_error
      ConversationCacheConfig_init_not_type_error LoggerConfig_init_not_type_error
      split: if_splits)

lemma Config_init_not_subscript:
  "Config_init d \<noteq> Inl (TypeError (NotSubscriptable t))"
  unfolding Config_init_def
  by (auto elim!: bindE_InlE simp: py_get_not_type_error LLMConfig_init_not_subscript
      OLSConfig_init_not_type_error split: if_splits)

text \<open>
  Claim C10. \<^verbatim>\<open>ModelConfig(None)\<close> raises, and what it raises is the \<^verbatim>\<open>TypeError\<close> of
  subscripting \<^verbatim>\<open>None\<close>; no call of \<^verbatim>\<open>ModelConfig\<close> raises an \<^verbatim>\<open>Exception\<close> with the
  missing-model-config message. In the load path the branch is not reached: the loop of
  \<^verbatim>\<open>ProviderConfig\<close> calls \<^verbatim>\<open>m.get\<close> first, which fails on \<^verbatim>\<open>None\<close> with an
  \<^verbatim>\<open>AttributeError\<close>, and no document makes \<^verbatim>\<open>Config(data)\<close> raise a not-subscriptable
  \<^verbatim>\<open>TypeError\<close>.
\<close>

theorem model_config_none_unreachable:
  "ModelConfig_init YNull = Inl (TypeError (NotSubscriptable NoneType)) \<and>
   (\<forall>data msg. ModelConfig_init data \<noteq> Inl (Exception msg)) \<and>
   (\<forall>acc. add_model YNull acc = Inl (AttributeError NoneType ''get'')) \<and>
   (\<forall>d t. Config_init d \<noteq> Inl (TypeError (NotSubscriptable t)))"
proof -
  have "ModelConfig_init YNull = Inl (TypeError (NotSubscriptable NoneType))"
    by (simp add: ModelConfig_init_def)
  moreover have "\<forall>acc. add_model YNull acc = Inl (AttributeError NoneType ''get'')"
    by (simp add: add_model_def py_get_def)
  ultimately show ?thesis
    using ModelConfig_init_no_exception Config_init_not_subscript by blast
qed

section \<open>The store model against the value model\<close>

lemma bindE_assoc: "bindE (bindE m f) g = bindE m (\<lambda>x. bindE (f x) g)"
  by (cases m) simp_all

lemma bindE_if: "bindE (if b then x else y) f = (if b then bindE x f else bindE y f)"
  by simp

lemma ProviderConfig_init_fields:
  "ProviderConfig_init data =
     (if data = YNull then Inr ProviderConfig_default
      else bindE (provider_fields data) (\<lambda>(n, u, c, entries).
             bindE (add_models entries []) (\<lambda>models.
             Inr \<lparr>pc_name = n, pc_url = u, pc_credential_path = c, pc_models = models\<rparr>)))"
  by (simp add: ProviderConfig_init_def provider_fields_def ProviderConfig_default_def
      bindE_assoc bindE_if cong: if_cong)

lemma add_model_h_result:
  assumes "add_model_h m r h = (res, h')"
  shows "next_ref h' = next_ref h \<and> provider_dicts h' = provider_dicts h \<and>
         (\<forall>r'. r' \<noteq> r \<longrightarrow> model_dicts h' r' = model_dicts h r') \<and>
         (case res of
            Inl e \<Rightarrow> add_model m (model_dicts h r) = Inl e
          | Inr u \<Rightarrow> add_model m (model_dicts h r) = Inr (model_dicts h' r))"
  using assms by (auto simp: add_model_h_def split: sum.splits)

lemma add_models_h_result:
  assumes "add_models_h ms r h = (res, h')"
  shows "next_ref h' = next_ref h \<and> provider_dicts h' = provider_dicts h \<and>
         (\<forall>r'. r' \<noteq> r \<longrightarrow> model_dicts h' r' = model_dicts h r') \<and>
         (case res of
            Inl e \<Rightarrow> add_models ms (model_dicts h r) = Inl e
          | Inr u \<Rightarrow> add_models ms (model_dicts h r) = Inr (model_dicts h' r))"
  using assms
proof (induction ms arbitrary: h)
  case Nil
  then show ?case by auto
next
  case (Cons m ms)
  obtain res1 h1 where s: "add_model_h m r h = (res1, h1)"
    by (cases "add_model_h m r h")
  note one = add_model_h_result [OF s]
  show ?case
  proof (cases res1)
    case (Inl e)
    with Cons.prems s one show ?thesis
      by auto
  next
    case (Inr u)
    with Cons.prems s have rest: "add_models_h ms r h1 = (res, h')"
      by simp
    note two = Cons.IH [OF rest]
    from one Inr have "add_model m (model_dicts h r) = Inr (model_dicts h1 r)"
      by simp
    with one two show ?thesis
      by (auto split: sum.splits)
  qed
qed

lemma ProviderConfig_init_h_result:
  assumes "ProviderConfig_init_h p h = (res, h')"
    and "class_defaults_empty h"
  shows "next_ref h' = Suc (next_ref h) \<and> provider_dicts h' = provider_dicts h \<and>
         (\<forall>r'. r' < next_ref h \<longrightarrow> model_dicts h' r' = model_dicts h r') \<and>
         (case res of
            Inl e \<Rightarrow> ProviderConfig_init p = Inl e
          | Inr po \<Rightarrow> po_models po = next_ref h \<and> ProviderConfig_init p = Inr (read_provider h' po))"
proof -
  let ?r = "next_ref h"
  let ?h1 = "h\<lparr>model_dicts := (model_dicts h)(?r := model_dicts h ProviderConfig_models_default),
               next_ref := Suc ?r\<rparr>"
  have copy: "copy_model_dict ProviderConfig_models_default h = (?r, ?h1)"
    by (simp add: copy_model_dict_def)
  from assms(2) have empty: "model_dicts ?h1 ?r = []"
    by (simp add: class_defaults_empty_def)
  show ?thesis
  proof (cases "p = YNull")
    case True
    with assms(1) copy empty show ?thesis
      by (auto simp: ProviderConfig_init_h_def ProviderConfig_init_def
          ProviderConfig_default_def read_provider_def)
  next
    case nn: False
    show ?thesis
    proof (cases "provider_fields p")
      case (Inl e)
      with assms(1) copy nn show ?thesis
        by (auto simp: ProviderConfig_init_h_def ProviderConfig_init_fields)
    next
      case (Inr t)
      obtain n u c entries where t: "t = (n, u, c, entries)"
        by (cases t)
      obtain res2 h2 where loop: "add_models_h entries ?r ?h1 = (res2, h2)"
        by (cases "add_models_h entries ?r ?h1")
      note l = add_models_h_result [OF loop]
      from l have frame: "\<forall>r'. r' < ?r \<longrightarrow> model_dicts h2 r' = model_dicts h r'"
        by simp
      show ?thesis
      proof (cases res2)
        case e: (Inl e)
        with assms(1) copy nn Inr t loop have "res = Inl e" "h' = h2"
          by (simp_all add: ProviderConfig_init_h_def)
        with l e empty frame Inr t nn show ?thesis
          by (simp add: ProviderConfig_init_fields)
      next
        case x: (Inr x)
        with assms(1) copy nn Inr t loop have
          "res = Inr \<lparr>po_name = n, po_url = u, po_credential_path = c, po_models = ?r\<rparr>"
          "h' = h2"
          by (simp_all add: ProviderConfig_init_h_def)
        with l x empty frame Inr t nn show ?thesis
          by (simp add: ProviderConfig_init_fields read_provider_def)
      qed
    qed
  qed
qed

lemma map_update_values:
  "map (\<lambda>kv. (fst kv, f (snd kv))) (AList.update k v d) =
   AList.update k (f v) (map (\<lambda>kv. (fst kv, f (snd kv))) d)"
  by (induction d) auto

lemma list_all_update:
  "list_all P d \<Longrightarrow> P (k, v) \<Longrightarrow> list_all P (AList.update k v d)"
  by (induction d) auto

lemma read_provider_provider_dicts [simp]:
  "read_provider (h\<lparr>provider_dicts := x\<rparr>) = read_provider h"
  by (simp add: fun_eq_iff read_provider_def)

lemma read_providers_frame:
  assumes "refs_below h r" and "provider_dicts h' r = provider_dicts h r"
    and "\<forall>r'. r' < next_ref h \<longrightarrow> model_dicts h' r' = model_dicts h r'"
  shows "read_providers h' r = read_providers h r"
  using assms
  by (auto simp: read_providers_def refs_below_def read_provider_def list_all_iff)

lemma add_provider_h_result:
  assumes "add_provider_h p r h = (res, h')"
    and "class_defaults_empty h" and "r \<noteq> LLMConfig_providers_default"
    and "refs_below h r"
  shows "next_ref h \<le> next_ref h' \<and>
         (\<forall>r'. r' \<noteq> r \<longrightarrow> provider_dicts h' r' = provider_dicts h r') \<and>
         (\<forall>r'. r' < next_ref h \<longrightarrow> model_dicts h' r' = model_dicts h r') \<and>
         class_defaults_empty h' \<and> refs_below h' r \<and>
         (case res of
            Inl e \<Rightarrow> add_provider p (read_providers h r) = Inl e
          | Inr u \<Rightarrow> add_provider p (read_providers h r) = Inr (read_providers h' r))"
proof (cases "bindE (py_get p ''name'') (\<lambda>n.
             if n = YNull then Inl (Exception (Lit ''provider name is missing''))
             else Inr n)")
  case (Inl e)
  then have "add_provider p (read_providers h r) = Inl e"
    by (cases "py_get p ''name''") (auto simp: add_provider_def split: if_splits)
  moreover from Inl assms(1) have "res = Inl e" "h' = h"
    by (simp_all add: add_provider_h_def)
  ultimately show ?thesis
    using assms(2,4) by simp
next
  case (Inr n)
  then have name: "py_get p ''name'' = Inr n" "n \<noteq> YNull"
    by (cases "py_get p ''name''"; auto split: if_splits)+
  obtain res1 h1 where init: "ProviderConfig_init_h p h = (res1, h1)"
    by (cases "ProviderConfig_init_h p h")
  note b = ProviderConfig_init_h_result [OF init assms(2)]
  from b assms(2,3) have cde: "class_defaults_empty h1"
    by (auto simp: class_defaults_empty_def ProviderConfig_models_default_def)
  from b assms(4) have rb: "refs_below h1 r"
    by (auto simp: refs_below_def list_all_iff)
  have same: "read_providers h1 r = read_providers h r"
    using assms(4) b by (intro read_providers_frame) simp_all
  show ?thesis
  proof (cases res1)
    case (Inl e)
    with Inr init assms(1) have "res = Inl e" "h' = h1"
      by (simp_all add: add_provider_h_def)
    moreover from b Inl name have "add_provider p (read_providers h r) = Inl e"
      by (simp add: add_provider_def)
    ultimately show ?thesis
      using b cde rb by simp
  next
    case po: (Inr po)
    with b have pure: "ProviderConfig_init p = Inr (read_provider h1 po)"
      and fresh: "po_models po = next_ref h"
      by simp_all
    show ?thesis
    proof (cases "bindE (py_getitem p ''name'') py_key")
      case (Inl e)
      with Inr po init assms(1) have "res = Inl e" "h' = h1"
        by (simp_all add: add_provider_h_def)
      moreover from Inl pure name have "add_provider p (read_providers h r) = Inl e"
        by (cases "py_getitem p ''name''") (simp_all add: add_provider_def)
      ultimately show ?thesis
        using b cde rb by simp
    next
      case k: (Inr k)
      let ?h2 = "h1\<lparr>provider_dicts := (provider_dicts h1)
                  (r := AList.update k po (provider_dicts h1 r))\<rparr>"
      from k Inr po init assms(1) have out: "res = Inr ()" "h' = ?h2"
        by (simp_all add: add_provider_h_def)
      from k pure name have
        "add_provider p (read_providers h r) =
           Inr (AList.update k (read_provider h1 po) (read_providers h r))"
        by (cases "py_getitem p ''name''") (simp_all add: add_provider_def)
      moreover have "read_providers ?h2 r =
          AList.update k (read_provider h1 po) (read_providers h1 r)"
        by (simp add: read_providers_def map_update_values [of "read_provider h1"])
      ultimately have sim: "add_provider p (read_providers h r) = Inr (read_providers ?h2 r)"
        using same by simp
      have rb2: "refs_below ?h2 r"
        using rb fresh b
        by (simp add: refs_below_def list_all_update)
      have cde2: "class_defaults_empty ?h2"
        using cde assms(3) by (simp add: class_defaults_empty_def)
      show ?thesis
        using out sim rb2 cde2 b by simp
    qed
  qed
qed

lemma add_providers_h_result:
  assumes "add_providers_h ps r h = (res, h')"
    and "class_defaults_empty h" and "r \<noteq> LLMConfig_providers_default"
    and "refs_below h r"
  shows "next_ref h \<le> next_ref h' \<and>
         (\<forall>r'. r' \<noteq> r \<longrightarrow> provider_dicts h' r' = provider_dicts h r') \<and>
         (\<forall>r'. r' < next_ref h \<longrightarrow> model_dicts h' r' = model_dicts h r') \<and>
         class_defaults_empty h' \<and> refs_below h' r \<and>
         (case res of
            Inl e \<Rightarrow> add_providers ps (read_providers h r) = Inl e
          | Inr u \<Rightarrow> add_providers ps (read_providers h r) = Inr (read_providers h' r))"
  using assms
proof (induction ps arbitrary: h)
  case Nil
  then show ?case by auto
next
  case (Cons p ps)
  obtain res1 h1 where s: "add_provider_h p r h = (res1, h1)"
    by (cases "add_provider_h p r h")
  note one = add_provider_h_result [OF s Cons.prems(2,3,4)]
  show ?case
  proof (cases res1)
    case (Inl e)
    with Cons.prems(1) s have "res = Inl e" "h' = h1"
      by simp_all
    with one Inl show ?thesis
      by simp
  next
    case (Inr u)
    with Cons.prems(1) s have rest: "add_providers_h ps r h1 = (res, h')"
      by simp
    from one have c1: "class_defaults_empty h1" and r1: "refs_below h1 r"
      by simp_all
    note two = Cons.IH [OF rest c1 Cons.prems(3) r1]
    from one Inr have step: "add_provider p (read_providers h r) = Inr (read_providers h1 r)"
      by simp
    have "next_ref h \<le> next_ref h'"
      using one two by linarith
    moreover have "\<forall>r'. r' \<noteq> r \<longrightarrow> provider_dicts h' r' = provider_dicts h r'"
      using one two by simp
    moreover have "\<forall>r'. r' < next_ref h \<longrightarrow> model_dicts h' r' = model_dicts h r'"
      using one two by (metis less_le_trans)
    moreover have "case res of
            Inl e \<Rightarrow> add_providers (p # ps) (read_providers h r) = Inl e
          | Inr u \<Rightarrow> add_providers (p # ps) (read_providers h r) = Inr (read_providers h' r)"
      using two step by (simp split: sum.splits)
    ultimately show ?thesis
      using two by blast
  qed
qed

lemma LLMConfig_init_h_result:
  assumes "LLMConfig_init_h lp h = (res, h')" and "class_defaults_empty h"
  shows "next_ref h < next_ref h' \<and>
         (\<forall>r'. r' < next_ref h \<longrightarrow>
            provider_dicts h' r' = provider_dicts h r' \<and> model_dicts h' r' = model_dicts h r') \<and>
         class_defaults_empty h' \<and>
         (case res of
            Inl e \<Rightarrow> LLMConfig_init lp = Inl e
          | Inr llm \<Rightarrow>
              lo_providers llm = next_ref h \<and> refs_below h' (lo_providers llm) \<and>
              LLMConfig_init lp = Inr \<lparr>providers = read_providers h' (lo_providers llm)\<rparr>)"
proof -
  let ?r = "next_ref h"
  let ?h1 = "h\<lparr>provider_dicts := (provider_dicts h)
                 (?r := provider_dicts h LLMConfig_providers_default),
               next_ref := Suc ?r\<rparr>"
  let ?pre = "bindE (if lp = YNull then Inr True else bindE (py_len lp) (\<lambda>n. Inr (n = 0)))
                (\<lambda>none. if none then Inl (Exception (Lit ''no llm providers configured''))
                        else py_iter lp)"
  have copy: "copy_provider_dict LLMConfig_providers_default h = (?r, ?h1)"
    by (simp add: copy_provider_dict_def)
  from assms(2) have empty: "provider_dicts ?h1 ?r = []" and c1: "class_defaults_empty ?h1"
    and ne: "?r \<noteq> LLMConfig_providers_default"
    by (auto simp: class_defaults_empty_def LLMConfig_providers_default_def)
  from empty have r1: "refs_below ?h1 ?r" and rd: "read_providers ?h1 ?r = []"
    by (simp_all add: refs_below_def read_providers_def)
  have pure: "LLMConfig_init lp =
      bindE ?pre (\<lambda>entries. bindE (add_providers entries []) (\<lambda>provs. Inr \<lparr>providers = provs\<rparr>))"
    by (simp add: LLMConfig_init_def bindE_assoc bindE_if cong: if_cong)
  show ?thesis
  proof (cases ?pre)
    case (Inl e)
    with assms(1) copy have "res = Inl e" "h' = ?h1"
      by (simp_all add: LLMConfig_init_h_def)
    with Inl pure c1 show ?thesis
      by simp
  next
    case (Inr entries)
    obtain res2 h2 where loop: "add_providers_h entries ?r ?h1 = (res2, h2)"
      by (cases "add_providers_h entries ?r ?h1")
    note l = add_providers_h_result [OF loop c1 ne r1]
    from l have frame: "\<forall>r'. r' < next_ref h \<longrightarrow>
            provider_dicts h2 r' = provider_dicts h r' \<and> model_dicts h2 r' = model_dicts h r'"
      by simp
    from l have lt: "next_ref h < next_ref h2"
      by simp
    show ?thesis
    proof (cases res2)
      case e: (Inl e)
      with assms(1) copy Inr loop have "res = Inl e" "h' = h2"
        by (simp_all add: LLMConfig_init_h_def)
      with l e rd Inr pure frame lt show ?thesis
        by simp
    next
      case x: (Inr x)
      with assms(1) copy Inr loop have "res = Inr \<lparr>lo_providers = ?r\<rparr>" "h' = h2"
        by (simp_all add: LLMConfig_init_h_def)
      with l x rd Inr pure frame lt show ?thesis
        by simp
    qed
  qed
qed

lemma read_config_frame:
  assumes "config_below h c"
    and "\<forall>r'. r' < next_ref h \<longrightarrow>
            provider_dicts h' r' = provider_dicts h r' \<and> model_dicts h' r' = model_dicts h r'"
  shows "read_config h' c = read_config h c"
proof (cases "co_llm_config c")
  case None
  then show ?thesis by (simp add: read_config_def)
next
  case (Some llm)
  with assms have "read_providers h' (lo_providers llm) = read_providers h (lo_providers llm)"
    by (intro read_providers_frame) (simp_all add: config_below_def)
  with Some show ?thesis
    by (simp add: read_config_def)
qed

lemma Config_init_sections:
  "d \<noteq> YNull \<Longrightarrow> Config_init d =
     bindE (py_get d ''llm_providers'') (\<lambda>lp.
     bindE (LLMConfig_init lp) (\<lambda>llm.
     bindE (bindE (py_get d ''ols_config'') OLSConfig_init) (\<lambda>ols.
     Inr \<lparr>llm_config = Some llm, ols_config = Some ols\<rparr>)))"
  by (simp add: Config_init_def bindE_assoc)

lemma Config_init_h_result:
  assumes "Config_init_h d h = (res, h')" and "class_defaults_empty h"
  shows "next_ref h \<le> next_ref h' \<and>
         (\<forall>r'. r' < next_ref h \<longrightarrow>
            provider_dicts h' r' = provider_dicts h r' \<and> model_dicts h' r' = model_dicts h r') \<and>
         class_defaults_empty h' \<and>
         (case res of
            Inl e \<Rightarrow> Config_init d = Inl e
          | Inr c \<Rightarrow> config_below h' c \<and> Config_init d = Inr (read_config h' c))"
proof (cases "d = YNull")
  case True
  with assms show ?thesis
    by (auto simp: Config_init_h_def Config_init_def config_below_def read_config_def)
next
  case nn: False
  show ?thesis
  proof (cases "py_get d ''llm_providers''")
    case (Inl e)
    with assms nn show ?thesis
      by (auto simp: Config_init_h_def Config_init_def)
  next
    case (Inr lp)
    obtain res1 h1 where llm: "LLMConfig_init_h lp h = (res1, h1)"
      by (cases "LLMConfig_init_h lp h")
    note l = LLMConfig_init_h_result [OF llm assms(2)]
    show ?thesis
    proof (cases res1)
      case (Inl e)
      with assms(1) nn Inr llm have "res = Inl e" "h' = h1"
        by (simp_all add: Config_init_h_def)
      with l Inl Inr nn show ?thesis
        by (simp add: Config_init_def)
    next
      case o: (Inr lo)
      show ?thesis
      proof (cases "bindE (py_get d ''ols_config'') OLSConfig_init")
        case (Inl e)
        with assms(1) nn Inr llm o have "res = Inl e" "h' = h1"
          by (simp_all add: Config_init_h_def)
        with l o Inr Inl nn show ?thesis
          by (simp add: Config_init_sections)
      next
        case ols: (Inr ols)
        with assms(1) nn Inr llm o have
          "res = Inr \<lparr>co_llm_config = Some lo, co_ols_config = Some ols\<rparr>" "h' = h1"
          by (simp_all add: Config_init_h_def)
        then show ?thesis
          using ols l o Inr nn
          by (auto simp: Config_init_sections config_below_def read_config_def)
      qed
    qed
  qed
qed

lemma load_config_h_parsed:
  "open_and_parse fs config_file = Inr d \<Longrightarrow>
   load_config_h fs config_file h =
     (case Config_init_h d h of
        (Inr c, h') \<Rightarrow> (([], Returned c), h')
      | (Inl e, h') \<Rightarrow>
          (case name_attr config_file of
             None \<Rightarrow> (([], Raised (AttributeError TStr ''name'')), h')
           | Some n \<Rightarrow> (([FailedToLoad n e, Traceback e], Exited 1), h')))"
  by (simp add: load_config_h_def)

lemma load_config_h_valid:
  assumes "class_defaults_empty h" and "open_and_parse fs config_file = Inr d"
    and "valid_document d" and "load_config_h fs config_file h = (res, h')"
  shows "\<exists>c. res = ([], Returned c) \<and> config_below h' c \<and>
           Config_init d = Inr (read_config h' c) \<and> class_defaults_empty h' \<and>
           next_ref h \<le> next_ref h' \<and>
           (\<forall>r'. r' < next_ref h \<longrightarrow>
              provider_dicts h' r' = provider_dicts h r' \<and> model_dicts h' r' = model_dicts h r')"
proof -
  obtain r1 h1 where i: "Config_init_h d h = (r1, h1)"
    by (cases "Config_init_h d h")
  note c = Config_init_h_result [OF i assms(1)]
  obtain cfg where ok: "Config_init d = Inr cfg"
    using Config_init_valid [OF assms(3)] by blast
  with c obtain co where co: "r1 = Inr co"
    by (cases r1) auto
  with i assms(2,4) have "res = ([], Returned co)" "h' = h1"
    by (simp_all add: load_config_h_parsed)
  with c co show ?thesis
    by simp
qed

text \<open>
  Claim C8. Starting from a store whose class-level default dicts are empty, loading the
  same valid document twice returns two configurations with identical field values; the
  first configuration reads the same after the second load as before it; the
  \<^verbatim>\<open>providers\<close> dict of the second is exactly the dict built from the provider entries of
  the document; and the class-level default dicts are still empty afterwards.
\<close>

theorem loads_do_not_share_state:
  assumes "class_defaults_empty h0"
    and "open_and_parse fs config_file = Inr d" and "valid_document d"
    and "load_config_h fs config_file h0 = (res1, h1)"
    and "load_config_h fs config_file h1 = (res2, h2)"
  shows "\<exists>c1 c2 ols.
           res1 = ([], Returned c1) \<and> res2 = ([], Returned c2) \<and>
           read_config h2 c2 = read_config h1 c1 \<and>
           read_config h2 c1 = read_config h1 c1 \<and>
           Config_init d = Inr (read_config h2 c2) \<and>
           read_config h2 c2 =
             \<lparr>llm_config = Some \<lparr>providers =
                  fold (\<lambda>p. AList.update (entry_key p) (provider_of p))
                    (items (field d ''llm_providers'')) []\<rparr>,
              ols_config = Some ols\<rparr> \<and>
           class_defaults_empty h2"
proof -
  obtain c1 where one: "res1 = ([], Returned c1)" "config_below h1 c1"
      "Config_init d = Inr (read_config h1 c1)" "class_defaults_empty h1"
    using load_config_h_valid [OF assms(1,2,3,4)] by blast
  obtain c2 where two: "res2 = ([], Returned c2)"
      "Config_init d = Inr (read_config h2 c2)" "class_defaults_empty h2"
      "\<forall>r'. r' < next_ref h1 \<longrightarrow>
         provider_dicts h2 r' = provider_dicts h1 r' \<and> model_dicts h2 r' = model_dicts h1 r'"
    using load_config_h_valid [OF one(4) assms(2,3,5)] by blast
  have same: "read_config h2 c1 = read_config h1 c1"
    using one(2) two(4) by (rule read_config_frame)
  obtain ols where "Config_init d =
     Inr \<lparr>llm_config = Some \<lparr>providers =
              fold (\<lambda>p. AList.update (entry_key p) (provider_of p))
                (items (field d ''llm_providers'')) []\<rparr>,
          ols_config = Some ols\<rparr>"
    using Config_init_valid [OF assms(3)] by blast
  with two(2) have content: "read_config h2 c2 =
     \<lparr>llm_config = Some \<lparr>providers =
              fold (\<lambda>p. AList.update (entry_key p) (provider_of p))
                (items (field d ''llm_providers'')) []\<rparr>,
          ols_config = Some ols\<rparr>"
    by simp
  from one(3) two(2) have "read_config h2 c2 = read_config h1 c1"
    by simp
  with one(1) two(1,2,3) same content show ?thesis
    by blast
qed

theorem loads_do_not_share_state_witness:
  "class_defaults_empty initial_store \<and> valid_document example_document \<and>
   (\<exists>c1 c2 h1 h2.
      load_config_h (\<lambda>p. Inr example_document) (StrPath ''olsconfig.yaml'') initial_store =
        (([], Returned c1), h1) \<and>
      load_config_h (\<lambda>p. Inr example_document) (StrPath ''olsconfig.yaml'') h1 =
        (([], Returned c2), h2) \<and>
      read_config h2 c2 = read_config h1 c1 \<and>
      read_config h2 c1 = read_config h1 c1 \<and>
      llm_config (read_config h2 c2) =
        Some \<lparr>providers =
          [(KStr ''openai'',
            \<lparr>pc_name = YStr ''openai'', pc_url = YNull, pc_credential_path = YNull,
             pc_models = [(KStr ''gpt-4'',
               \<lparr>mc_name = YStr ''gpt-4'', mc_url = YNull, mc_credential_path = YNull\<rparr>)]\<rparr>)]\<rparr> \<and>
      class_defaults_empty h2)"
proof -
  let ?fs = "\<lambda>p::string. (Inr example_document :: pyerr + yaml)"
  let ?cf = "StrPath ''olsconfig.yaml''"
  have e: "class_defaults_empty initial_store"
    by (simp add: class_defaults_empty_def initial_store_def)
  have p: "open_and_parse ?fs ?cf = Inr example_document"
    by simp
  have v: "valid_document example_document"
    by code_simp
  obtain res1 h1 where l1: "load_config_h ?fs ?cf initial_store = (res1, h1)"
    by (cases "load_config_h ?fs ?cf initial_store")
  obtain res2 h2 where l2: "load_config_h ?fs ?cf h1 = (res2, h2)"
    by (cases "load_config_h ?fs ?cf h1")
  have val: "map_sum id llm_config (Config_init example_document) =
      Inr (Some \<lparr>providers =
          [(KStr ''openai'',
            \<lparr>pc_name = YStr ''openai'', pc_url = YNull, pc_credential_path = YNull,
             pc_models = [(KStr ''gpt-4'',
               \<lparr>mc_name = YStr ''gpt-4'', mc_url = YNull, mc_credential_path = YNull\<rparr>)]\<rparr>)]\<rparr>)"
    by code_simp
  from loads_do_not_share_state [OF e p v l1 l2] obtain c1 c2 where
    r: "res1 = ([], Returned c1)" "res2 = ([], Returned c2)"
      "read_config h2 c2 = read_config h1 c1" "read_config h2 c1 = read_config h1 c1"
      "Config_init example_document = Inr (read_config h2 c2)" "class_defaults_empty h2"
    by blast
  from r(5) val have "llm_config (read_config h2 c2) =
        Some \<lparr>providers =
          [(KStr ''openai'',
            \<lparr>pc_name = YStr ''openai'', pc_url = YNull, pc_credential_path = YNull,
             pc_models = [(KStr ''gpt-4'',
               \<lparr>mc_name = YStr ''gpt-4'', mc_url = YNull, mc_credential_path = YNull\<rparr>)]\<rparr>)]\<rparr>"
    by simp
  with e v l1 l2 r show ?thesis
    by blast
qed

end
